theory Spec2Isabelle
  imports Main "HOL-Library.Word"
begin

section \<open>The decode driver \<^verbatim>\<open>spm_decode_main.cc\<close>\<close>

text \<open>
  The driver reads six flags, loads a tokenization model, opens an output file, selects
  one closure from the pair (input format, output format) and streams every input source
  through it. The model library, the line-oriented files and the logging macros are not
  part of the file: they are parameters of the embedding (the record \<open>world\<close>), and every
  call the driver makes to them is recorded, in order, in a trace of events. A run
  returns how it ended together with that trace.
\<close>

subsection \<open>Flags\<close>

record flags =
  FLAGS_model :: string
  FLAGS_input :: string
  FLAGS_output :: string
  FLAGS_input_format :: string
  FLAGS_output_format :: string
  FLAGS_extra_options :: string

subsection \<open>The collaborators of the driver\<close>

text \<open>
  \<open>'sp\<close> is the state of a \<^verbatim>\<open>SentencePieceProcessor\<close>, \<open>'spt\<close> a \<^verbatim>\<open>SentencePieceText\<close>.
  A call that returns a status is a function to \<open>option\<close>: \<open>None\<close> is a status that is not
  OK. \<open>NewReadableFile\<close> gives the lines that \<^verbatim>\<open>ReadLine\<close> yields, in order, and the empty
  path names standard input; \<open>ifstream\<close> gives the bytes of a regular file opened in binary
  mode. \<open>atoi_out_of_range\<close> is what the C library's \<^verbatim>\<open>atoi\<close> returns for a number that
  does not fit an \<^verbatim>\<open>int\<close>, which the C standard leaves open.
\<close>

record ('sp, 'spt) world =
  Load :: "string \<Rightarrow> 'sp option"
  SetDecodeExtraOptions :: "'sp \<Rightarrow> string \<Rightarrow> 'sp option"
  Decode_pieces :: "'sp \<Rightarrow> string list \<Rightarrow> string option"
  Decode_ids :: "'sp \<Rightarrow> int list \<Rightarrow> string option"
  Decode_pieces_spt :: "'sp \<Rightarrow> string list \<Rightarrow> 'spt option"
  Decode_ids_spt :: "'sp \<Rightarrow> int list \<Rightarrow> 'spt option"
  NewWritableFile :: "string \<Rightarrow> bool"
  NewReadableFile :: "string \<Rightarrow> string list option"
  ifstream :: "string \<Rightarrow> 8 word list option"
  atoi_out_of_range :: "int \<Rightarrow> int"

subsection \<open>Events, fatal errors, results\<close>

datatype decode_call =
  Pieces_to_string "string list"
| Pieces_to_spt "string list"
| Ids_to_string "int list"
| Ids_to_spt "int list"

datatype event =
  E_Load string
| E_SetDecodeExtraOptions string
| E_NewWritableFile string
| E_NewReadableFile string
| E_ifstream string
| E_cerr string
| E_ReadLine string
| E_Decode decode_call
| E_WriteLine string

datatype fatal =
  Check_model_empty
| Load_failed
| SetDecodeExtraOptions_failed
| Output_open_failed
| Unknown_output_format string
| Unknown_input_format string
| Input_open_failed string
| Decode_failed
| Bad_function_call

type_synonym trace = "event list"

type_synonym 'a outcome = "(fatal + 'a) \<times> trace"

text \<open>The lines written to the output sink, the lines read and the decode calls of a trace.\<close>

fun written :: "trace \<Rightarrow> string list" where
  "written [] = []"
| "written (E_WriteLine l # es) = l # written es"
| "written (_ # es) = written es"

fun lines_read :: "trace \<Rightarrow> string list" where
  "lines_read [] = []"
| "lines_read (E_ReadLine l # es) = l # lines_read es"
| "lines_read (_ # es) = lines_read es"

fun decode_calls :: "trace \<Rightarrow> decode_call list" where
  "decode_calls [] = []"
| "decode_calls (E_Decode c # es) = c # decode_calls es"
| "decode_calls (_ # es) = decode_calls es"

text \<open>The events that touch a file: the model file, the output file, an input file.\<close>

fun is_io :: "event \<Rightarrow> bool" where
  "is_io (E_Load _) = True"
| "is_io (E_NewWritableFile _) = True"
| "is_io (E_NewReadableFile _) = True"
| "is_io (E_ifstream _) = True"
| "is_io _ = False"

subsection \<open>\<^verbatim>\<open>readFileToVector\<close>\<close>

text \<open>
  Lines 39 to 66. \<^verbatim>\<open>inFile.read(reinterpret_cast<char*>(&num16), sizeof(uint16_t))\<close>
  stores two bytes of the file at the address of \<open>num16\<close>; on a little-endian host the
  first is the low byte. \<^verbatim>\<open>static_cast<int>\<close> of a \<^verbatim>\<open>uint16_t\<close> is its unsigned value.
  The reads are sequential from the start of the file, so that the read number \<open>i\<close> takes
  the bytes \<open>2 * i\<close> and \<open>2 * i + 1\<close>; both exist, as \<open>i\<close> is below
  \<open>numElements\<close>, the size of the file divided by \<^verbatim>\<open>sizeof(uint16_t)\<close>.
\<close>

definition num16_at :: "8 word list \<Rightarrow> nat \<Rightarrow> 16 word" where
  "num16_at bytes i = word_cat (bytes ! (2 * i + 1)) (bytes ! (2 * i))"

definition read_elements :: "8 word list \<Rightarrow> int list" where
  "read_elements bytes =
     (let numElements = length bytes div 2
      in map (\<lambda>i. uint (num16_at bytes i)) [0..<numElements])"

text \<open>The line that \<^verbatim>\<open>readFileToVector\<close> sends to \<^verbatim>\<open>std::cerr\<close>.\<close>

definition unable_to_open :: "string \<Rightarrow> string" where
  "unable_to_open filename = ''Error: Unable to open the file: '' @ filename"

definition readFileToVector :: "('sp, 'spt) world \<Rightarrow> string \<Rightarrow> trace \<Rightarrow> int list \<times> trace" where
  "readFileToVector w filename tr =
     (case ifstream w filename of
        None \<Rightarrow> ([], tr @ [E_ifstream filename, E_cerr (unable_to_open filename)])
      | Some bytes \<Rightarrow> (read_elements bytes, tr @ [E_ifstream filename]))"

subsection \<open>\<^verbatim>\<open>atoi\<close> and \<^verbatim>\<open>ToIds\<close>\<close>

definition isspace :: "char \<Rightarrow> bool" where
  "isspace c = (c \<in> set [CHR 0x20, CHR 0x09, CHR 0x0A, CHR 0x0B, CHR 0x0C, CHR 0x0D])"

definition isdigit :: "char \<Rightarrow> bool" where
  "isdigit c = (48 \<le> (of_char c :: nat) \<and> (of_char c :: nat) \<le> 57)"

fun digits :: "nat \<Rightarrow> string \<Rightarrow> nat" where
  "digits acc [] = acc"
| "digits acc (c # cs) =
     (if isdigit c then digits (10 * acc + (of_char c - 48)) cs else acc)"

text \<open>
  \<^verbatim>\<open>atoi\<close> of the C library: leading white space is skipped, one sign is read, then
  the longest run of decimal digits; the scan stops at the first other character (hence
  also at a NUL inside the token, where \<^verbatim>\<open>c_str()\<close> ends).
\<close>

definition atoi :: "(int \<Rightarrow> int) \<Rightarrow> string \<Rightarrow> int" where
  "atoi out_of_range s =
     (let s1 = dropWhile isspace s;
          n = (case s1 of
                 [] \<Rightarrow> 0
               | c # cs \<Rightarrow>
                   if c = CHR ''-'' then - int (digits 0 cs)
                   else if c = CHR ''+'' then int (digits 0 cs)
                   else int (digits 0 s1))
      in if - (2 ^ 31) \<le> n \<and> n < 2 ^ 31 then n else out_of_range n)"

definition ToIds :: "('sp, 'spt) world \<Rightarrow> string list \<Rightarrow> int list" where
  "ToIds w pieces = map (\<lambda>s. atoi (atoi_out_of_range w) s) pieces"

subsection \<open>The line tokenizer\<close>

text \<open>
  Modelled from the spec: \<^verbatim>\<open>absl::StrSplit(line, " ")\<close>, which the repository defines in
  \<^verbatim>\<open>third_party/absl/strings/str_split.h\<close>, a file that is not among the sources. The
  spec has each line split on single-space boundaries into a sequence of
  whitespace-separated tokens, and the empty line yield the empty sequence: the tokens
  are the maximal runs of characters other than the space.
\<close>

fun split_space :: "string \<Rightarrow> string \<Rightarrow> string list" where
  "split_space cur [] = (if cur = [] then [] else [cur])"
| "split_space cur (c # cs) =
     (if c = CHR '' '' then
        (if cur = [] then split_space [] cs else cur # split_space [] cs)
      else split_space (cur @ [c]) cs)"

definition StrSplit :: "string \<Rightarrow> string list" where
  "StrSplit line = split_space [] line"

subsection \<open>The closures\<close>

text \<open>
  Lines 108 to 152. Each closure calls \<^verbatim>\<open>sp.Decode\<close> under \<^verbatim>\<open>CHECK_OK\<close>, which ends
  the run when the status is not OK; for the output format \<^verbatim>\<open>string\<close> it then calls
  \<^verbatim>\<open>output->WriteLine(detok)\<close>, for \<^verbatim>\<open>proto\<close> it does nothing more.
\<close>

definition decode_to_string ::
  "string option \<Rightarrow> decode_call \<Rightarrow> trace \<Rightarrow> unit outcome" where
  "decode_to_string status call tr =
     (case status of
        None \<Rightarrow> (Inl Decode_failed, tr @ [E_Decode call])
      | Some detok \<Rightarrow> (Inr (), tr @ [E_Decode call, E_WriteLine detok]))"

definition decode_to_spt ::
  "'spt option \<Rightarrow> decode_call \<Rightarrow> trace \<Rightarrow> unit outcome" where
  "decode_to_spt status call tr =
     (case status of
        None \<Rightarrow> (Inl Decode_failed, tr @ [E_Decode call])
      | Some spt \<Rightarrow> (Inr (), tr @ [E_Decode call]))"

definition piece_string :: "('sp, 'spt) world \<Rightarrow> 'sp \<Rightarrow> string list \<Rightarrow> trace \<Rightarrow> unit outcome" where
  "piece_string w sp pieces tr =
     decode_to_string (Decode_pieces w sp pieces) (Pieces_to_string pieces) tr"

definition piece_proto :: "('sp, 'spt) world \<Rightarrow> 'sp \<Rightarrow> string list \<Rightarrow> trace \<Rightarrow> unit outcome" where
  "piece_proto w sp pieces tr =
     decode_to_spt (Decode_pieces_spt w sp pieces) (Pieces_to_spt pieces) tr"

definition map_string :: "('sp, 'spt) world \<Rightarrow> 'sp \<Rightarrow> int list \<Rightarrow> trace \<Rightarrow> unit outcome" where
  "map_string w sp ids tr =
     decode_to_string (Decode_ids w sp ids) (Ids_to_string ids) tr"

definition map_proto :: "('sp, 'spt) world \<Rightarrow> 'sp \<Rightarrow> int list \<Rightarrow> trace \<Rightarrow> unit outcome" where
  "map_proto w sp ids tr =
     decode_to_spt (Decode_ids_spt w sp ids) (Ids_to_spt ids) tr"

definition id_string :: "('sp, 'spt) world \<Rightarrow> 'sp \<Rightarrow> string list \<Rightarrow> trace \<Rightarrow> unit outcome" where
  "id_string w sp pieces tr =
     (let ids = ToIds w pieces
      in decode_to_string (Decode_ids w sp ids) (Ids_to_string ids) tr)"

definition id_proto :: "('sp, 'spt) world \<Rightarrow> 'sp \<Rightarrow> string list \<Rightarrow> trace \<Rightarrow> unit outcome" where
  "id_proto w sp pieces tr =
     (let ids = ToIds w pieces
      in decode_to_spt (Decode_ids_spt w sp ids) (Ids_to_spt ids) tr)"

text \<open>
  \<open>process\<close> and \<open>process_int\<close> of the source: the dispatch assigns one of the two, or ends
  the run with \<^verbatim>\<open>LOG(FATAL)\<close>.
\<close>

datatype closure =
  Process "string list \<Rightarrow> trace \<Rightarrow> unit outcome"
| Process_int "int list \<Rightarrow> trace \<Rightarrow> unit outcome"

definition select_closure :: "('sp, 'spt) world \<Rightarrow> 'sp \<Rightarrow> flags \<Rightarrow> fatal + closure" where
  "select_closure w sp fl =
     (if FLAGS_input_format fl = ''piece'' then
        (if FLAGS_output_format fl = ''string'' then Inr (Process (piece_string w sp))
         else if FLAGS_output_format fl = ''proto'' then Inr (Process (piece_proto w sp))
         else Inl (Unknown_output_format (FLAGS_output_format fl)))
      else if FLAGS_input_format fl = ''map'' then
        (if FLAGS_output_format fl = ''string'' then Inr (Process_int (map_string w sp))
         else if FLAGS_output_format fl = ''proto'' then Inr (Process_int (map_proto w sp))
         else Inl (Unknown_output_format (FLAGS_output_format fl)))
      else if FLAGS_input_format fl = ''id'' then
        (if FLAGS_output_format fl = ''string'' then Inr (Process (id_string w sp))
         else if FLAGS_output_format fl = ''proto'' then Inr (Process (id_proto w sp))
         else Inl (Unknown_output_format (FLAGS_output_format fl)))
      else Inl (Unknown_input_format (FLAGS_input_format fl)))"

subsection \<open>The batch loops\<close>

text \<open>\<^verbatim>\<open>while (input->ReadLine(&line))\<close>: one closure call for each line, in order.\<close>

fun read_lines ::
  "(string list \<Rightarrow> trace \<Rightarrow> unit outcome) \<Rightarrow> string list \<Rightarrow> trace \<Rightarrow> unit outcome" where
  "read_lines process [] tr = (Inr (), tr)"
| "read_lines process (line # rest) tr =
     (case process (StrSplit line) (tr @ [E_ReadLine line]) of
        (Inl d, tr') \<Rightarrow> (Inl d, tr')
      | (Inr _, tr') \<Rightarrow> read_lines process rest tr')"

text \<open>The loop over \<open>rest_args\<close> for the formats \<^verbatim>\<open>piece\<close> and \<^verbatim>\<open>id\<close>.\<close>

fun text_files ::
  "('sp, 'spt) world \<Rightarrow> (string list \<Rightarrow> trace \<Rightarrow> unit outcome) \<Rightarrow> string list \<Rightarrow> trace
     \<Rightarrow> unit outcome" where
  "text_files w process [] tr = (Inr (), tr)"
| "text_files w process (filename # rest) tr =
     (case NewReadableFile w filename of
        None \<Rightarrow> (Inl (Input_open_failed filename), tr @ [E_NewReadableFile filename])
      | Some lines \<Rightarrow>
          (case read_lines process lines (tr @ [E_NewReadableFile filename]) of
             (Inl d, tr') \<Rightarrow> (Inl d, tr')
           | (Inr _, tr') \<Rightarrow> text_files w process rest tr'))"

text \<open>The loop over \<open>rest_args\<close> for the format \<^verbatim>\<open>map\<close>.\<close>

fun map_files ::
  "('sp, 'spt) world \<Rightarrow> (int list \<Rightarrow> trace \<Rightarrow> unit outcome) \<Rightarrow> string list \<Rightarrow> trace
     \<Rightarrow> unit outcome" where
  "map_files w process_int [] tr = (Inr (), tr)"
| "map_files w process_int (filename # rest) tr =
     (case readFileToVector w filename tr of
        (ids, tr1) \<Rightarrow>
          (case process_int ids tr1 of
             (Inl d, tr') \<Rightarrow> (Inl d, tr')
           | (Inr _, tr') \<Rightarrow> map_files w process_int rest tr'))"

subsection \<open>\<^verbatim>\<open>main\<close>\<close>

text \<open>
  Lines 68 to 171. \<open>argv\<close> is the argument vector that \<^verbatim>\<open>ParseCommandLineFlags\<close>
  leaves: the program name, then the positional arguments. \<open>startup_trace\<close> are the
  events of the lines 87 to 92, \<open>batch\<close> is the loop of the lines 154 to 168; calling
  the one of \<open>process\<close> and \<open>process_int\<close> that the dispatch did not assign would throw
  \<^verbatim>\<open>std::bad_function_call\<close>. A run that ends with \<open>Inl\<close> was ended by \<^verbatim>\<open>CHECK\<close>,
  \<^verbatim>\<open>CHECK_OK\<close> or \<^verbatim>\<open>LOG(FATAL)\<close>; a run that ends with \<open>Inr 0\<close> has returned 0.
\<close>

definition rest_args :: "flags \<Rightarrow> string list \<Rightarrow> string list" where
  "rest_args fl argv =
     (let argc = length argv;
          r = (if FLAGS_input fl = [] then map (\<lambda>i. argv ! i) [1..<argc]
               else [FLAGS_input fl])
      in if r = [] then [[]] else r)"

definition startup_trace :: "flags \<Rightarrow> trace" where
  "startup_trace fl =
     [E_Load (FLAGS_model fl), E_SetDecodeExtraOptions (FLAGS_extra_options fl),
      E_NewWritableFile (FLAGS_output fl)]"

definition batch ::
  "('sp, 'spt) world \<Rightarrow> flags \<Rightarrow> closure \<Rightarrow> string list \<Rightarrow> trace \<Rightarrow> unit outcome" where
  "batch w fl c files tr =
     (if FLAGS_input_format fl = ''map'' then
        (case c of
           Process_int process_int \<Rightarrow> map_files w process_int files tr
         | Process _ \<Rightarrow> (Inl Bad_function_call, tr))
      else
        (case c of
           Process process \<Rightarrow> text_files w process files tr
         | Process_int _ \<Rightarrow> (Inl Bad_function_call, tr)))"

definition main :: "('sp, 'spt) world \<Rightarrow> flags \<Rightarrow> string list \<Rightarrow> int outcome" where
  "main w fl argv =
     (let files = rest_args fl argv in
      if FLAGS_model fl = [] then (Inl Check_model_empty, [])
      else
        (case Load w (FLAGS_model fl) of
           None \<Rightarrow> (Inl Load_failed, [E_Load (FLAGS_model fl)])
         | Some sp0 \<Rightarrow>
             (case SetDecodeExtraOptions w sp0 (FLAGS_extra_options fl) of
                None \<Rightarrow>
                  (Inl SetDecodeExtraOptions_failed,
                   [E_Load (FLAGS_model fl),
                    E_SetDecodeExtraOptions (FLAGS_extra_options fl)])
              | Some sp \<Rightarrow>
                  if \<not> NewWritableFile w (FLAGS_output fl)
                  then (Inl Output_open_failed, startup_trace fl)
                  else
                    (case select_closure w sp fl of
                       Inl d \<Rightarrow> (Inl d, startup_trace fl)
                     | Inr c \<Rightarrow>
                         (case batch w fl c files (startup_trace fl) of
                            (Inl d, tr) \<Rightarrow> (Inl d, tr)
                          | (Inr _, tr) \<Rightarrow> (Inr 0, tr))))))"

subsection \<open>A small world to run the driver in\<close>

text \<open>
  One model file that loads, a piece decoder that concatenates, an id decoder that knows
  the ids below 100, a text file of three lines (the second empty), a text file of two
  lines of ids (the second with an id that the model does not know), a binary file of
  four bytes and a binary file that holds the unknown id 999.
\<close>

definition demo_world :: "(unit, string) world" where
  "demo_world =
     \<lparr>Load = (\<lambda>path. if path = ''m.model'' then Some () else None),
      SetDecodeExtraOptions = (\<lambda>sp opts. Some sp),
      Decode_pieces = (\<lambda>sp pieces. Some (concat pieces)),
      Decode_ids =
        (\<lambda>sp ids. if list_all (\<lambda>i. 0 \<le> i \<and> i < 100) ids
                   then Some (map (\<lambda>i. CHR ''x'') ids) else None),
      Decode_pieces_spt = (\<lambda>sp pieces. Some (concat pieces)),
      Decode_ids_spt =
        (\<lambda>sp ids. if list_all (\<lambda>i. 0 \<le> i \<and> i < 100) ids
                   then Some (map (\<lambda>i. CHR ''x'') ids) else None),
      NewWritableFile = (\<lambda>path. True),
      NewReadableFile =
        (\<lambda>path. if path = ''in.txt'' then Some [''a b'', [], ''c'']
                else if path = ''ids.txt'' then Some [''15 42 7'', ''5 999'']
                else None),
      ifstream =
        (\<lambda>path. if path = ''ids.bin'' then Some [0x0F, 0x00, 0x2A, 0x00]
                else if path = ''bad.bin'' then Some [0xE7, 0x03]
                else None),
      atoi_out_of_range = (\<lambda>n. 0)\<rparr>"

text \<open>The defaults of the flags, with a model path.\<close>

definition demo_flags :: flags where
  "demo_flags =
     \<lparr>FLAGS_model = ''m.model'', FLAGS_input = [], FLAGS_output = [],
      FLAGS_input_format = ''piece'', FLAGS_output_format = ''string'',
      FLAGS_extra_options = []\<rparr>"

subsection \<open>Derived notions\<close>

text \<open>The \<^verbatim>\<open>LOG(FATAL)\<close> that the dispatch reaches when a format is not a known one.\<close>

definition unknown_format :: "flags \<Rightarrow> fatal" where
  "unknown_format fl =
     (if FLAGS_input_format fl \<notin> {''piece'', ''id'', ''map''}
      then Unknown_input_format (FLAGS_input_format fl)
      else Unknown_output_format (FLAGS_output_format fl))"

text \<open>
  The two shapes of a closure: a decode call that ends the run, or a decode call followed
  by one written line (string), respectively by nothing (proto).
\<close>

definition writes_line :: "('a \<Rightarrow> trace \<Rightarrow> unit outcome) \<Rightarrow> bool" where
  "writes_line p =
     (\<forall>x tr. \<exists>call. p x tr = (Inl Decode_failed, tr @ [E_Decode call])
        \<or> (\<exists>l. p x tr = (Inr (), tr @ [E_Decode call, E_WriteLine l])))"

definition writes_nothing :: "('a \<Rightarrow> trace \<Rightarrow> unit outcome) \<Rightarrow> bool" where
  "writes_nothing p =
     (\<forall>x tr. \<exists>call. p x tr = (Inl Decode_failed, tr @ [E_Decode call])
        \<or> p x tr = (Inr (), tr @ [E_Decode call]))"

text \<open>The lines of the input files, in the order of the files.\<close>

definition all_lines :: "('sp, 'spt) world \<Rightarrow> string list \<Rightarrow> string list" where
  "all_lines w files =
     concat (map (\<lambda>f. case NewReadableFile w f of None \<Rightarrow> [] | Some ls \<Rightarrow> ls) files)"

text \<open>
  Modelled from the spec: the model's \<^verbatim>\<open>Decode\<close> on an empty sequence, defined in
  \<^verbatim>\<open>sentencepiece_processor.cc\<close>, a file that is not among the sources. The spec has the
  decode call of an empty line not throw: each of the four entry points returns OK on the
  empty sequence.
\<close>

definition decodes_empty :: "('sp, 'spt) world \<Rightarrow> 'sp \<Rightarrow> bool" where
  "decodes_empty w sp =
     (Decode_pieces w sp [] \<noteq> None \<and> Decode_ids w sp [] \<noteq> None
      \<and> Decode_pieces_spt w sp [] \<noteq> None \<and> Decode_ids_spt w sp [] \<noteq> None)"

text \<open>The decode calls on an empty sequence.\<close>

definition empty_calls :: "decode_call set" where
  "empty_calls = {Pieces_to_string [], Pieces_to_spt [], Ids_to_string [], Ids_to_spt []}"

text \<open>
  The tokens in which \<^verbatim>\<open>atoi\<close> finds a number: after the white space and one sign, a
  decimal digit.
\<close>

definition begins_with_number :: "string \<Rightarrow> bool" where
  "begins_with_number s =
     (case dropWhile isspace s of
        [] \<Rightarrow> False
      | c # cs \<Rightarrow>
          if c = CHR ''-'' \<or> c = CHR ''+'' then (case cs of [] \<Rightarrow> False | d # _ \<Rightarrow> isdigit d)
          else isdigit c)"

text \<open>
  The number that a run of decimal digits denotes: the digit at the place \<open>i\<close> from
  the right counts \<open>10 ^ i\<close> times.
\<close>

definition digit_value :: "char \<Rightarrow> nat" where
  "digit_value c = of_char c - 48"

fun decimal :: "string \<Rightarrow> nat" where
  "decimal [] = 0"
| "decimal (c # cs) = digit_value c * 10 ^ length cs + decimal cs"

text \<open>
  The small world with one more text file, which holds one empty line; and the small
  world with one line on standard input, which \<open>NewReadableFile\<close> opens under the empty
  path. No file has the empty path, so that \<^verbatim>\<open>std::ifstream\<close> cannot open it.
\<close>

definition blank_world :: "(unit, string) world" where
  "blank_world =
     demo_world\<lparr>NewReadableFile := (\<lambda>path. if path = ''blank.txt'' then Some [[]] else None)\<rparr>"

definition stdin_world :: "(unit, string) world" where
  "stdin_world =
     demo_world\<lparr>NewReadableFile := (\<lambda>path. if path = [] then Some [''a b''] else None)\<rparr>"

section \<open>The binary id reader\<close>

lemma uint_num16:
  "uint (word_cat (hi :: 8 word) (lo :: 8 word) :: 16 word) = uint lo + 256 * uint hi"
proof -
  have lo: "0 \<le> uint lo" "uint lo < 256" and hi: "0 \<le> uint hi" "uint hi < 256"
    using uint_lt2p [of lo] uint_lt2p [of hi] by simp_all
  have "word_cat hi lo = (word_of_int (uint lo + 256 * uint hi) :: 16 word)"
    by (simp only: word_cat_eq' concat_bit_eq take_bit_eq_mod push_bit_eq_mult)
       (simp add: lo mult.commute)
  then have "uint (word_cat hi lo :: 16 word) = (uint lo + 256 * uint hi) mod 65536"
    by (simp only: uint_word_of_int) simp
  also have "\<dots> = uint lo + 256 * uint hi"
    using lo hi by simp
  finally show ?thesis .
qed

lemma length_read_elements: "length (read_elements bytes) = length bytes div 2"
  by (simp add: read_elements_def)

lemma nth_read_elements:
  assumes "i < length bytes div 2"
  shows "read_elements bytes ! i = uint (bytes ! (2 * i)) + 256 * uint (bytes ! (2 * i + 1))"
  using assms by (simp add: read_elements_def num16_at_def uint_num16)

lemma readFileToVector_opened:
  "ifstream w filename = Some bytes \<Longrightarrow>
   readFileToVector w filename tr = (read_elements bytes, tr @ [E_ifstream filename])"
  by (simp add: readFileToVector_def)

lemma readFileToVector_unopened:
  "ifstream w filename = None \<Longrightarrow>
   readFileToVector w filename tr =
     ([], tr @ [E_ifstream filename, E_cerr (unable_to_open filename)])"
  by (simp add: readFileToVector_def)

lemma read_elements_scenario: "read_elements [0x0F, 0x00, 0x2A, 0x00] = [15, 42]"
  by (simp add: read_elements_def num16_at_def uint_num16 upt_rec)

text \<open>
  C4. A binary file of N bytes that opens yields exactly N div 2 integers, so that an
  odd last byte is dropped; element i is the unsigned little-endian value of the bytes
  2i and 2i+1, between 0 and 65535; the bytes 0F 00 2A 00 yield 15 and 42.
\<close>

theorem readFileToVector_elements:
  assumes "ifstream w filename = Some bytes"
  shows "length (fst (readFileToVector w filename tr)) = length bytes div 2
    \<and> (\<forall>i < length bytes div 2.
          fst (readFileToVector w filename tr) ! i
            = uint (bytes ! (2 * i)) + 256 * uint (bytes ! (2 * i + 1))
          \<and> 0 \<le> fst (readFileToVector w filename tr) ! i
          \<and> fst (readFileToVector w filename tr) ! i \<le> 65535)
    \<and> (bytes = [0x0F, 0x00, 0x2A, 0x00] \<longrightarrow>
          fst (readFileToVector w filename tr) = [15, 42])"
proof -
  have r: "fst (readFileToVector w filename tr) = read_elements bytes"
    using assms by (simp add: readFileToVector_opened)
  have "0 \<le> read_elements bytes ! i \<and> read_elements bytes ! i \<le> 65535"
    if "i < length bytes div 2" for i
  proof -
    have "uint (bytes ! (2 * i)) < 256" "uint (bytes ! (2 * i + 1)) < 256"
      using uint_lt2p [of "bytes ! (2 * i)"] uint_lt2p [of "bytes ! (2 * i + 1)"]
      by simp_all
    then show ?thesis
      using that by (simp add: nth_read_elements)
  qed
  then show ?thesis
    by (simp add: r length_read_elements nth_read_elements read_elements_scenario)
qed

theorem readFileToVector_elements_witness:
  "ifstream demo_world ''ids.bin'' = Some [0x0F, 0x00, 0x2A, 0x00]
   \<and> fst (readFileToVector demo_world ''ids.bin'' []) = [15, 42]
   \<and> length (fst (readFileToVector demo_world ''ids.bin'' [])) = 2"
proof -
  have h: "ifstream demo_world ''ids.bin'' = Some [0x0F, 0x00, 0x2A, 0x00]"
    by (simp add: demo_world_def)
  show ?thesis
    using h readFileToVector_elements [OF h, of "[]"] by simp
qed

section \<open>The input sources\<close>

lemma argv_positional: "map (\<lambda>i. argv ! i) [1..<length argv] = tl argv"
  by (rule nth_equalityI) (auto simp: nth_tl)

text \<open>
  The list of input sources, lines 71 to 82: with a non-empty input flag that file alone;
  otherwise the positional arguments, in their order; with neither, the empty path.
\<close>

lemma rest_args_sources:
  "rest_args fl argv =
     (if FLAGS_input fl \<noteq> [] then [FLAGS_input fl]
      else if tl argv \<noteq> [] then tl argv
      else [[]])"
  by (simp only: rest_args_def Let_def argv_positional) simp

section \<open>Traces and startup\<close>

lemma written_append: "written (a @ b) = written a @ written b"
  by (induction a rule: written.induct) simp_all

lemma lines_read_append: "lines_read (a @ b) = lines_read a @ lines_read b"
  by (induction a rule: lines_read.induct) simp_all

lemma decode_calls_append: "decode_calls (a @ b) = decode_calls a @ decode_calls b"
  by (induction a rule: decode_calls.induct) simp_all

lemma startup_trace_quiet:
  "written (startup_trace fl) = []" "lines_read (startup_trace fl) = []"
  "decode_calls (startup_trace fl) = []"
  by (simp_all add: startup_trace_def)

lemma select_closure_unknown_input:
  assumes "FLAGS_input_format fl \<notin> {''piece'', ''id'', ''map''}"
  shows "select_closure w sp fl = Inl (Unknown_input_format (FLAGS_input_format fl))"
  using assms by (simp add: select_closure_def)

lemma select_closure_unknown_output:
  assumes "FLAGS_input_format fl \<in> {''piece'', ''id'', ''map''}"
    and "FLAGS_output_format fl \<notin> {''string'', ''proto''}"
  shows "select_closure w sp fl = Inl (Unknown_output_format (FLAGS_output_format fl))"
  using assms by (auto simp add: select_closure_def)

lemma select_closure_unknown:
  assumes "FLAGS_input_format fl \<notin> {''piece'', ''id'', ''map''}
         \<or> FLAGS_output_format fl \<notin> {''string'', ''proto''}"
  shows "select_closure w sp fl = Inl (unknown_format fl)"
  using assms by (auto simp add: select_closure_def unknown_format_def)

lemma main_started:
  assumes "FLAGS_model fl \<noteq> []" and "Load w (FLAGS_model fl) = Some sp0"
    and "SetDecodeExtraOptions w sp0 (FLAGS_extra_options fl) = Some sp"
    and "NewWritableFile w (FLAGS_output fl)"
  shows "main w fl argv =
     (case select_closure w sp fl of
        Inl d \<Rightarrow> (Inl d, startup_trace fl)
      | Inr c \<Rightarrow>
          (case batch w fl c (rest_args fl argv) (startup_trace fl) of
             (Inl d, tr) \<Rightarrow> (Inl d, tr)
           | (Inr _, tr) \<Rightarrow> (Inr 0, tr)))"
  using assms by (simp add: main_def)

lemma main_unknown_format:
  assumes "FLAGS_input_format fl \<notin> {''piece'', ''id'', ''map''}
         \<or> FLAGS_output_format fl \<notin> {''string'', ''proto''}"
  shows "main w fl argv = (Inl Check_model_empty, [])
       \<or> main w fl argv = (Inl Load_failed, take 1 (startup_trace fl))
       \<or> main w fl argv = (Inl SetDecodeExtraOptions_failed, take 2 (startup_trace fl))
       \<or> main w fl argv = (Inl Output_open_failed, startup_trace fl)
       \<or> main w fl argv = (Inl (unknown_format fl), startup_trace fl)"
proof (cases "FLAGS_model fl = []")
  case True
  then show ?thesis by (simp add: main_def)
next
  case model: False
  show ?thesis
  proof (cases "Load w (FLAGS_model fl)")
    case None
    with model show ?thesis by (simp add: main_def startup_trace_def)
  next
    case (Some sp0)
    show ?thesis
    proof (cases "SetDecodeExtraOptions w sp0 (FLAGS_extra_options fl)")
      case None
      with model Some show ?thesis by (simp add: main_def startup_trace_def)
    next
      case opts: (Some sp)
      show ?thesis
      proof (cases "NewWritableFile w (FLAGS_output fl)")
        case False
        with model Some opts show ?thesis by (simp add: main_def)
      next
        case True
        with model Some opts show ?thesis
          by (simp add: main_started select_closure_unknown [OF assms])
      qed
    qed
  qed
qed

lemma take_startup_trace_quiet: "decode_calls (take k (startup_trace fl)) = []"
proof -
  have "k = 0 \<or> k = 1 \<or> k = 2 \<or> 3 \<le> k" by arith
  then show ?thesis by (auto simp add: startup_trace_def)
qed

section \<open>Unknown formats and the order of the startup checks\<close>

text \<open>
  C5. When the input format is none of piece, id, map, or the output format is
  neither string nor proto, the run ends fatally and no decode call occurs in it. The
  diagnostic is the one of the unknown format, naming the value of the flag (of the input
  format when both are unknown), when the run reaches the dispatch: the model path is
  not empty, the model loads, the extra options are accepted and the output opens.
\<close>

theorem unknown_format_fatal:
  assumes "FLAGS_input_format fl \<notin> {''piece'', ''id'', ''map''}
         \<or> FLAGS_output_format fl \<notin> {''string'', ''proto''}"
  shows "(\<exists>d. fst (main w fl argv) = Inl d)
    \<and> decode_calls (snd (main w fl argv)) = []
    \<and> (FLAGS_model fl \<noteq> [] \<and> Load w (FLAGS_model fl) = Some sp0
         \<and> SetDecodeExtraOptions w sp0 (FLAGS_extra_options fl) = Some sp
         \<and> NewWritableFile w (FLAGS_output fl) \<longrightarrow>
       fst (main w fl argv) =
         Inl (if FLAGS_input_format fl \<notin> {''piece'', ''id'', ''map''}
              then Unknown_input_format (FLAGS_input_format fl)
              else Unknown_output_format (FLAGS_output_format fl)))"
proof -
  have fatal: "\<exists>d. fst (main w fl argv) = Inl d"
    using main_unknown_format [OF assms, of w argv] by auto
  have quiet: "decode_calls (snd (main w fl argv)) = []"
    using main_unknown_format [OF assms, of w argv]
    by (auto simp add: take_startup_trace_quiet startup_trace_quiet)
  have "fst (main w fl argv) = Inl (unknown_format fl)"
    if "FLAGS_model fl \<noteq> []" "Load w (FLAGS_model fl) = Some sp0"
      "SetDecodeExtraOptions w sp0 (FLAGS_extra_options fl) = Some sp"
      "NewWritableFile w (FLAGS_output fl)"
    using that by (simp add: main_started select_closure_unknown [OF assms])
  with fatal quiet show ?thesis
    by (simp add: unknown_format_def)
qed

theorem unknown_format_fatal_witness:
  "fst (main demo_world (demo_flags\<lparr>FLAGS_input_format := ''xyz''\<rparr>) [''spm_decode'', ''in.txt''])
     = Inl (Unknown_input_format ''xyz'')
   \<and> decode_calls
        (snd (main demo_world (demo_flags\<lparr>FLAGS_input_format := ''xyz''\<rparr>)
           [''spm_decode'', ''in.txt''])) = []"
  using unknown_format_fatal
    [of "demo_flags\<lparr>FLAGS_input_format := ''xyz''\<rparr>" demo_world
        "[''spm_decode'', ''in.txt'']" "()" "()"]
  by (simp add: demo_flags_def demo_world_def)

text \<open>
  With no model path and the input format xyz the run ends at the check of the model
  path, and its diagnostic is not the one of the unknown format.
\<close>

theorem unknown_format_counterexample:
  "fst (main demo_world (demo_flags\<lparr>FLAGS_model := [], FLAGS_input_format := ''xyz''\<rparr>)
          [''spm_decode'', ''in.txt''])
     = Inl Check_model_empty
   \<and> fst (main demo_world (demo_flags\<lparr>FLAGS_model := [], FLAGS_input_format := ''xyz''\<rparr>)
          [''spm_decode'', ''in.txt''])
     \<noteq> Inl (Unknown_input_format ''xyz'')"
  by (simp add: main_def demo_flags_def)

text \<open>
  C6. An empty model path ends the run before any event. An unknown format
  ends it after the model has been loaded, the extra options set and the output file
  opened: the trace of a run with an unknown format is an initial part of these three
  events, and all three when the diagnostic is the one of the unknown format. No input
  file is opened, nothing is decoded and nothing is written in such a run.
\<close>

theorem configuration_checks_order:
  "(FLAGS_model fl = [] \<longrightarrow> main w fl argv = (Inl Check_model_empty, []))
   \<and> (FLAGS_input_format fl \<notin> {''piece'', ''id'', ''map''}
        \<or> FLAGS_output_format fl \<notin> {''string'', ''proto''} \<longrightarrow>
      (\<exists>k. snd (main w fl argv) = take k (startup_trace fl))
      \<and> (fst (main w fl argv) = Inl (Unknown_input_format (FLAGS_input_format fl))
          \<or> fst (main w fl argv) = Inl (Unknown_output_format (FLAGS_output_format fl)) \<longrightarrow>
         snd (main w fl argv) = startup_trace fl
         \<and> filter is_io (snd (main w fl argv))
             = [E_Load (FLAGS_model fl), E_NewWritableFile (FLAGS_output fl)]))"
proof -
  have empty: "main w fl argv = (Inl Check_model_empty, [])" if "FLAGS_model fl = []"
    using that by (simp add: main_def)
  have io: "filter is_io (startup_trace fl)
      = [E_Load (FLAGS_model fl), E_NewWritableFile (FLAGS_output fl)]"
    by (simp add: startup_trace_def)
  have "(\<exists>k. snd (main w fl argv) = take k (startup_trace fl))
      \<and> (fst (main w fl argv) = Inl (Unknown_input_format (FLAGS_input_format fl))
          \<or> fst (main w fl argv) = Inl (Unknown_output_format (FLAGS_output_format fl)) \<longrightarrow>
         snd (main w fl argv) = startup_trace fl)"
    if bad: "FLAGS_input_format fl \<notin> {''piece'', ''id'', ''map''}
        \<or> FLAGS_output_format fl \<notin> {''string'', ''proto''}"
  proof -
    have full: "take 3 (startup_trace fl) = startup_trace fl"
      by (simp add: startup_trace_def)
    consider "main w fl argv = (Inl Check_model_empty, take 0 (startup_trace fl))"
      | "main w fl argv = (Inl Load_failed, take 1 (startup_trace fl))"
      | "main w fl argv = (Inl SetDecodeExtraOptions_failed, take 2 (startup_trace fl))"
      | "main w fl argv = (Inl Output_open_failed, take 3 (startup_trace fl))"
      | "main w fl argv = (Inl (unknown_format fl), take 3 (startup_trace fl))"
      using main_unknown_format [OF bad, of w argv] by (auto simp add: full)
    then obtain d k where run: "main w fl argv = (Inl d, take k (startup_trace fl))"
      and last: "d = Unknown_input_format (FLAGS_input_format fl)
          \<or> d = Unknown_output_format (FLAGS_output_format fl) \<Longrightarrow> k = 3"
      by cases (fastforce+)
    have "\<exists>k. snd (main w fl argv) = take k (startup_trace fl)"
      using run by (metis snd_conv)
    moreover have "snd (main w fl argv) = startup_trace fl"
      if "fst (main w fl argv) = Inl (Unknown_input_format (FLAGS_input_format fl))
          \<or> fst (main w fl argv) = Inl (Unknown_output_format (FLAGS_output_format fl))"
      using that run last full by auto
    ultimately show ?thesis by blast
  qed
  with empty io show ?thesis by simp
qed

theorem configuration_checks_order_witness:
  "main demo_world (demo_flags\<lparr>FLAGS_model := []\<rparr>) [''spm_decode'', ''in.txt'']
     = (Inl Check_model_empty, [])
   \<and> snd (main demo_world (demo_flags\<lparr>FLAGS_output_format := ''json''\<rparr>)
        [''spm_decode'', ''in.txt''])
     = [E_Load ''m.model'', E_SetDecodeExtraOptions [], E_NewWritableFile []]"
proof -
  have "fst (main demo_world (demo_flags\<lparr>FLAGS_output_format := ''json''\<rparr>)
          [''spm_decode'', ''in.txt'']) = Inl (Unknown_output_format ''json'')"
    by (simp add: main_def demo_flags_def demo_world_def select_closure_def startup_trace_def)
  then show ?thesis
    using configuration_checks_order
        [of "demo_flags\<lparr>FLAGS_model := []\<rparr>" demo_world "[''spm_decode'', ''in.txt'']"]
      configuration_checks_order
        [of "demo_flags\<lparr>FLAGS_output_format := ''json''\<rparr>" demo_world
            "[''spm_decode'', ''in.txt'']"]
    by (simp add: demo_flags_def startup_trace_def)
qed

text \<open>
  With a model that loads and the input format xyz, the model file has been read and the
  output file opened when the format is found unknown.
\<close>

theorem configuration_checks_order_counterexample:
  "main demo_world (demo_flags\<lparr>FLAGS_input_format := ''xyz''\<rparr>) [''spm_decode'', ''in.txt'']
     = (Inl (Unknown_input_format ''xyz''),
        [E_Load ''m.model'', E_SetDecodeExtraOptions [], E_NewWritableFile []])
   \<and> filter is_io
        (snd (main demo_world (demo_flags\<lparr>FLAGS_input_format := ''xyz''\<rparr>)
           [''spm_decode'', ''in.txt'']))
     = [E_Load ''m.model'', E_NewWritableFile []]"
  by (simp add: main_def demo_flags_def demo_world_def select_closure_def startup_trace_def)

section \<open>The closures and the loops\<close>

lemma decode_to_string_cases:
  "decode_to_string status call tr = (Inl Decode_failed, tr @ [E_Decode call])
   \<or> (\<exists>l. decode_to_string status call tr = (Inr (), tr @ [E_Decode call, E_WriteLine l]))"
  by (cases status) (simp_all add: decode_to_string_def)

lemma decode_to_spt_cases:
  "decode_to_spt status call tr = (Inl Decode_failed, tr @ [E_Decode call])
   \<or> decode_to_spt status call tr = (Inr (), tr @ [E_Decode call])"
  by (cases status) (simp_all add: decode_to_spt_def)

lemma writes_line_closures:
  "writes_line (piece_string w sp)" "writes_line (id_string w sp)"
  "writes_line (map_string w sp)"
  unfolding writes_line_def piece_string_def id_string_def map_string_def Let_def
  using decode_to_string_cases by blast+

lemma writes_nothing_closures:
  "writes_nothing (piece_proto w sp)" "writes_nothing (id_proto w sp)"
  "writes_nothing (map_proto w sp)"
  unfolding writes_nothing_def piece_proto_def id_proto_def map_proto_def Let_def
  using decode_to_spt_cases by blast+

lemma select_closure_cases:
  assumes "select_closure w sp fl = Inr c"
  shows "(FLAGS_input_format fl = ''piece'' \<and> FLAGS_output_format fl = ''string''
            \<and> c = Process (piece_string w sp))
       \<or> (FLAGS_input_format fl = ''piece'' \<and> FLAGS_output_format fl = ''proto''
            \<and> c = Process (piece_proto w sp))
       \<or> (FLAGS_input_format fl = ''map'' \<and> FLAGS_output_format fl = ''string''
            \<and> c = Process_int (map_string w sp))
       \<or> (FLAGS_input_format fl = ''map'' \<and> FLAGS_output_format fl = ''proto''
            \<and> c = Process_int (map_proto w sp))
       \<or> (FLAGS_input_format fl = ''id'' \<and> FLAGS_output_format fl = ''string''
            \<and> c = Process (id_string w sp))
       \<or> (FLAGS_input_format fl = ''id'' \<and> FLAGS_output_format fl = ''proto''
            \<and> c = Process (id_proto w sp))"
  using assms by (simp add: select_closure_def split: if_splits)

lemma select_closure_Process:
  assumes "select_closure w sp fl = Inr (Process p)"
  shows "FLAGS_input_format fl \<noteq> ''map''"
    and "FLAGS_output_format fl = ''string'' \<Longrightarrow> writes_line p"
    and "FLAGS_output_format fl \<noteq> ''string'' \<Longrightarrow> writes_nothing p"
  using select_closure_cases [OF assms] writes_line_closures [of w sp]
    writes_nothing_closures [of w sp]
  by auto

lemma select_closure_Process_int:
  assumes "select_closure w sp fl = Inr (Process_int p)"
  shows "FLAGS_input_format fl = ''map''"
    and "FLAGS_output_format fl = ''string'' \<Longrightarrow> writes_line p"
    and "FLAGS_output_format fl \<noteq> ''string'' \<Longrightarrow> writes_nothing p"
  using select_closure_cases [OF assms] writes_line_closures [of w sp]
    writes_nothing_closures [of w sp]
  by auto

lemma writes_line_step:
  assumes "writes_line p" and "p x tr = (Inr u, tr')"
  shows "\<exists>l. written tr' = written tr @ [l]" and "lines_read tr' = lines_read tr"
proof -
  obtain call where "p x tr = (Inl Decode_failed, tr @ [E_Decode call])
      \<or> (\<exists>l. p x tr = (Inr (), tr @ [E_Decode call, E_WriteLine l]))"
    using assms(1) unfolding writes_line_def by blast
  with assms(2) obtain l where "tr' = tr @ [E_Decode call, E_WriteLine l]"
    by auto
  then show "\<exists>l. written tr' = written tr @ [l]" and "lines_read tr' = lines_read tr"
    by (simp_all add: written_append lines_read_append)
qed

lemma writes_nothing_step:
  assumes "writes_nothing p" and "p x tr = (r, tr')"
  shows "written tr' = written tr" and "r = Inr () \<Longrightarrow> lines_read tr' = lines_read tr"
proof -
  obtain call where "p x tr = (Inl Decode_failed, tr @ [E_Decode call])
      \<or> p x tr = (Inr (), tr @ [E_Decode call])"
    using assms(1) unfolding writes_nothing_def by blast
  with assms(2) have "tr' = tr @ [E_Decode call]"
    by auto
  then show "written tr' = written tr" and "r = Inr () \<Longrightarrow> lines_read tr' = lines_read tr"
    by (simp_all add: written_append lines_read_append)
qed

lemma read_lines_writes_line:
  assumes "writes_line p" and "read_lines p ls tr = (Inr u, tr')"
  shows "lines_read tr' = lines_read tr @ ls
       \<and> length (written tr') = length (written tr) + length ls"
  using assms(2)
proof (induction ls arbitrary: tr)
  case Nil
  then show ?case by simp
next
  case (Cons line rest)
  obtain r tr1 where step: "p (StrSplit line) (tr @ [E_ReadLine line]) = (r, tr1)"
    by (cases "p (StrSplit line) (tr @ [E_ReadLine line])")
  with Cons.prems obtain u1 where ok: "r = Inr u1" and rest: "read_lines p rest tr1 = (Inr u, tr')"
    by (cases r) simp_all
  from writes_line_step [OF assms(1) step [unfolded ok]]
  obtain l where "written tr1 = written (tr @ [E_ReadLine line]) @ [l]"
    and "lines_read tr1 = lines_read (tr @ [E_ReadLine line])"
    by blast
  then have "length (written tr1) = length (written tr) + 1"
    and "lines_read tr1 = lines_read tr @ [line]"
    by (simp_all add: written_append lines_read_append)
  with Cons.IH [OF rest] show ?case by simp
qed

lemma read_lines_writes_nothing:
  assumes "writes_nothing p" and "read_lines p ls tr = (r, tr')"
  shows "written tr' = written tr"
  using assms(2)
proof (induction ls arbitrary: tr)
  case Nil
  then show ?case by simp
next
  case (Cons line rest)
  obtain r1 tr1 where step: "p (StrSplit line) (tr @ [E_ReadLine line]) = (r1, tr1)"
    by (cases "p (StrSplit line) (tr @ [E_ReadLine line])")
  have w1: "written tr1 = written tr"
    using writes_nothing_step(1) [OF assms(1) step] by (simp add: written_append)
  show ?case
  proof (cases r1)
    case (Inl d)
    with Cons.prems step w1 show ?thesis by simp
  next
    case (Inr u1)
    with Cons.prems step have "read_lines p rest tr1 = (r, tr')" by simp
    from Cons.IH [OF this] w1 show ?thesis by simp
  qed
qed

lemma text_files_writes_line:
  assumes "writes_line p" and "text_files w p files tr = (Inr u, tr')"
  shows "lines_read tr' = lines_read tr @ all_lines w files
       \<and> length (written tr') = length (written tr) + length (all_lines w files)"
  using assms(2)
proof (induction files arbitrary: tr)
  case Nil
  then show ?case by (simp add: all_lines_def)
next
  case (Cons filename rest)
  from Cons.prems obtain ls where opened: "NewReadableFile w filename = Some ls"
    by (cases "NewReadableFile w filename") simp_all
  obtain r tr1 where lines: "read_lines p ls (tr @ [E_NewReadableFile filename]) = (r, tr1)"
    by (cases "read_lines p ls (tr @ [E_NewReadableFile filename])")
  with Cons.prems opened obtain u1 where ok: "r = Inr u1"
    and rest: "text_files w p rest tr1 = (Inr u, tr')"
    by (cases r) simp_all
  from read_lines_writes_line [OF assms(1) lines [unfolded ok]]
  have "lines_read tr1 = lines_read tr @ ls"
    and "length (written tr1) = length (written tr) + length ls"
    by (simp_all add: written_append lines_read_append)
  with Cons.IH [OF rest] opened show ?case
    by (simp add: all_lines_def)
qed

lemma text_files_writes_nothing:
  assumes "writes_nothing p" and "text_files w p files tr = (r, tr')"
  shows "written tr' = written tr"
  using assms(2)
proof (induction files arbitrary: tr)
  case Nil
  then show ?case by simp
next
  case (Cons filename rest)
  show ?case
  proof (cases "NewReadableFile w filename")
    case None
    with Cons.prems show ?thesis by (auto simp add: written_append)
  next
    case (Some ls)
    obtain r1 tr1 where lines: "read_lines p ls (tr @ [E_NewReadableFile filename]) = (r1, tr1)"
      by (cases "read_lines p ls (tr @ [E_NewReadableFile filename])")
    have w1: "written tr1 = written tr"
      using read_lines_writes_nothing [OF assms(1) lines] by (simp add: written_append)
    show ?thesis
    proof (cases r1)
      case (Inl d)
      with Cons.prems Some lines w1 show ?thesis by simp
    next
      case (Inr u1)
      with Cons.prems Some lines have "text_files w p rest tr1 = (r, tr')" by simp
      from Cons.IH [OF this] w1 show ?thesis by simp
    qed
  qed
qed

lemma readFileToVector_quiet:
  assumes "readFileToVector w filename tr = (ids, tr1)"
  shows "written tr1 = written tr" and "lines_read tr1 = lines_read tr"
    and "decode_calls tr1 = decode_calls tr"
  using assms
  by (auto simp add: readFileToVector_def written_append lines_read_append decode_calls_append
      split: option.splits)

lemma map_files_writes_line:
  assumes "writes_line p" and "map_files w p files tr = (Inr u, tr')"
  shows "length (written tr') = length (written tr) + length files"
  using assms(2)
proof (induction files arbitrary: tr)
  case Nil
  then show ?case by simp
next
  case (Cons filename rest)
  obtain ids tr1 where rd: "readFileToVector w filename tr = (ids, tr1)"
    by (cases "readFileToVector w filename tr")
  obtain r tr2 where step: "p ids tr1 = (r, tr2)"
    by (cases "p ids tr1")
  with Cons.prems rd obtain u1 where ok: "r = Inr u1"
    and rest: "map_files w p rest tr2 = (Inr u, tr')"
    by (cases r) simp_all
  from writes_line_step(1) [OF assms(1) step [unfolded ok]] readFileToVector_quiet(1) [OF rd]
  have "length (written tr2) = length (written tr) + 1"
    by auto
  with Cons.IH [OF rest] show ?case by simp
qed

lemma map_files_writes_nothing:
  assumes "writes_nothing p" and "map_files w p files tr = (r, tr')"
  shows "written tr' = written tr"
  using assms(2)
proof (induction files arbitrary: tr)
  case Nil
  then show ?case by simp
next
  case (Cons filename rest)
  obtain ids tr1 where rd: "readFileToVector w filename tr = (ids, tr1)"
    by (cases "readFileToVector w filename tr")
  obtain r1 tr2 where step: "p ids tr1 = (r1, tr2)"
    by (cases "p ids tr1")
  have w2: "written tr2 = written tr"
    using writes_nothing_step(1) [OF assms(1) step] readFileToVector_quiet(1) [OF rd] by simp
  show ?case
  proof (cases r1)
    case (Inl d)
    with Cons.prems rd step w2 show ?thesis by simp
  next
    case (Inr u1)
    with Cons.prems rd step have "map_files w p rest tr2 = (r, tr')" by simp
    from Cons.IH [OF this] w2 show ?thesis by simp
  qed
qed

lemma main_cases:
  "(\<exists>d k. main w fl argv = (Inl d, take k (startup_trace fl)))
   \<or> (\<exists>sp c r tr. select_closure w sp fl = Inr c
         \<and> batch w fl c (rest_args fl argv) (startup_trace fl) = (r, tr)
         \<and> main w fl argv = (case r of Inl d \<Rightarrow> Inl d | Inr _ \<Rightarrow> Inr 0, tr))"
proof (cases "FLAGS_model fl = []")
  case True
  then have "main w fl argv = (Inl Check_model_empty, take 0 (startup_trace fl))"
    by (simp add: main_def)
  then show ?thesis by blast
next
  case model: False
  show ?thesis
  proof (cases "Load w (FLAGS_model fl)")
    case None
    with model have "main w fl argv = (Inl Load_failed, take 1 (startup_trace fl))"
      by (simp add: main_def startup_trace_def)
    then show ?thesis by blast
  next
    case (Some sp0)
    show ?thesis
    proof (cases "SetDecodeExtraOptions w sp0 (FLAGS_extra_options fl)")
      case None
      with model Some
      have "main w fl argv = (Inl SetDecodeExtraOptions_failed, take 2 (startup_trace fl))"
        by (simp add: main_def startup_trace_def)
      then show ?thesis by blast
    next
      case opts: (Some sp)
      show ?thesis
      proof (cases "NewWritableFile w (FLAGS_output fl)")
        case False
        with model Some opts
        have "main w fl argv = (Inl Output_open_failed, take 3 (startup_trace fl))"
          by (simp add: main_def startup_trace_def)
        then show ?thesis by blast
      next
        case True
        note started = main_started [OF model Some opts True, of argv]
        show ?thesis
        proof (cases "select_closure w sp fl")
          case (Inl d)
          with started have "main w fl argv = (Inl d, take 3 (startup_trace fl))"
            by (simp add: startup_trace_def)
          then show ?thesis by blast
        next
          case (Inr c)
          obtain r tr where b: "batch w fl c (rest_args fl argv) (startup_trace fl) = (r, tr)"
            by (cases "batch w fl c (rest_args fl argv) (startup_trace fl)")
          with started Inr
          have "main w fl argv = (case r of Inl d \<Rightarrow> Inl d | Inr _ \<Rightarrow> Inr 0, tr)"
            by (cases r) simp_all
          with Inr b show ?thesis by blast
        qed
      qed
    qed
  qed
qed

lemma take_startup_trace_silent:
  "written (take k (startup_trace fl)) = []" "lines_read (take k (startup_trace fl)) = []"
proof -
  have "k = 0 \<or> k = 1 \<or> k = 2 \<or> 3 \<le> k" by arith
  then show "written (take k (startup_trace fl)) = []"
    and "lines_read (take k (startup_trace fl)) = []"
    by (auto simp add: startup_trace_def)
qed

lemma main_returns:
  assumes "fst (main w fl argv) = Inr n"
  obtains sp c tr where "select_closure w sp fl = Inr c"
    and "batch w fl c (rest_args fl argv) (startup_trace fl) = (Inr (), tr)"
    and "snd (main w fl argv) = tr"
proof -
  consider d k where "main w fl argv = (Inl d, take k (startup_trace fl))"
    | sp c r tr where "select_closure w sp fl = Inr c"
      "batch w fl c (rest_args fl argv) (startup_trace fl) = (r, tr)"
      "main w fl argv = (case r of Inl d \<Rightarrow> Inl d | Inr _ \<Rightarrow> Inr 0, tr)"
    using main_cases [of w fl argv] by fastforce
  then show thesis
  proof cases
    case 1
    with assms show thesis by simp
  next
    case 2
    with assms have "r = Inr ()" by (cases r) simp_all
    with 2 that show thesis by simp
  qed
qed

lemma main_proto_silent:
  assumes "FLAGS_output_format fl = ''proto''"
  shows "written (snd (main w fl argv)) = []"
proof -
  consider d k where "main w fl argv = (Inl d, take k (startup_trace fl))"
    | sp c r tr where "select_closure w sp fl = Inr c"
      "batch w fl c (rest_args fl argv) (startup_trace fl) = (r, tr)"
      "snd (main w fl argv) = tr"
    using main_cases [of w fl argv] by fastforce
  then show ?thesis
  proof cases
    case 1
    then show ?thesis by (simp add: take_startup_trace_silent)
  next
    case 2
    show ?thesis
    proof (cases c)
      case (Process p)
      with 2(1) assms have "writes_nothing p" and "FLAGS_input_format fl \<noteq> ''map''"
        using select_closure_Process [of w sp fl p] by simp_all
      with 2(2) Process have "text_files w p (rest_args fl argv) (startup_trace fl) = (r, tr)"
        by (simp add: batch_def)
      from text_files_writes_nothing [OF \<open>writes_nothing p\<close> this] 2(3)
      show ?thesis by (simp add: startup_trace_quiet)
    next
      case (Process_int p)
      with 2(1) assms have "writes_nothing p" and "FLAGS_input_format fl = ''map''"
        using select_closure_Process_int [of w sp fl p] by simp_all
      with 2(2) Process_int have "map_files w p (rest_args fl argv) (startup_trace fl) = (r, tr)"
        by (simp add: batch_def)
      from map_files_writes_nothing [OF \<open>writes_nothing p\<close> this] 2(3)
      show ?thesis by (simp add: startup_trace_quiet)
    qed
  qed
qed

lemma main_text_string:
  assumes "FLAGS_output_format fl = ''string''" and "FLAGS_input_format fl \<noteq> ''map''"
    and "fst (main w fl argv) = Inr n"
  shows "lines_read (snd (main w fl argv)) = all_lines w (rest_args fl argv)"
    and "length (written (snd (main w fl argv))) = length (all_lines w (rest_args fl argv))"
proof -
  from assms(3) obtain sp c tr where sel: "select_closure w sp fl = Inr c"
    and b: "batch w fl c (rest_args fl argv) (startup_trace fl) = (Inr (), tr)"
    and tr: "snd (main w fl argv) = tr"
    by (rule main_returns)
  from b assms(2) obtain p where c: "c = Process p"
    by (cases c) (simp_all add: batch_def)
  with sel assms(1) have wl: "writes_line p"
    using select_closure_Process(2) [of w sp fl p] by simp
  from b c assms(2) have "text_files w p (rest_args fl argv) (startup_trace fl) = (Inr (), tr)"
    by (simp add: batch_def)
  from text_files_writes_line [OF wl this] tr
  show "lines_read (snd (main w fl argv)) = all_lines w (rest_args fl argv)"
    and "length (written (snd (main w fl argv))) = length (all_lines w (rest_args fl argv))"
    by (simp_all add: startup_trace_quiet)
qed

lemma main_map_string:
  assumes "FLAGS_output_format fl = ''string''" and "FLAGS_input_format fl = ''map''"
    and "fst (main w fl argv) = Inr n"
  shows "length (written (snd (main w fl argv))) = length (rest_args fl argv)"
proof -
  from assms(3) obtain sp c tr where sel: "select_closure w sp fl = Inr c"
    and b: "batch w fl c (rest_args fl argv) (startup_trace fl) = (Inr (), tr)"
    and tr: "snd (main w fl argv) = tr"
    by (rule main_returns)
  from b assms(2) obtain p where c: "c = Process_int p"
    by (cases c) (simp_all add: batch_def)
  with sel assms(1) have wl: "writes_line p"
    using select_closure_Process_int(2) [of w sp fl p] by simp
  from b c assms(2) have "map_files w p (rest_args fl argv) (startup_trace fl) = (Inr (), tr)"
    by (simp add: batch_def)
  from map_files_writes_line [OF wl this] tr
  show ?thesis
    by (simp add: startup_trace_quiet)
qed

lemma writes_line_invocation:
  assumes "writes_line p"
  shows "fst (p x tr) = Inl Decode_failed \<or> (\<exists>l. written (snd (p x tr)) = written tr @ [l])"
proof -
  obtain call where "p x tr = (Inl Decode_failed, tr @ [E_Decode call])
      \<or> (\<exists>l. p x tr = (Inr (), tr @ [E_Decode call, E_WriteLine l]))"
    using assms unfolding writes_line_def by blast
  then show ?thesis
    by (auto simp add: written_append)
qed

lemma writes_nothing_invocation:
  assumes "writes_nothing p"
  shows "written (snd (p x tr)) = written tr"
  using writes_nothing_step(1) [OF assms, of x tr "fst (p x tr)" "snd (p x tr)"] by simp

lemma demo_run_piece:
  "main demo_world demo_flags [''spm_decode'', ''in.txt''] =
     (Inr 0,
      [E_Load ''m.model'', E_SetDecodeExtraOptions [], E_NewWritableFile [],
       E_NewReadableFile ''in.txt'',
       E_ReadLine ''a b'', E_Decode (Pieces_to_string [''a'', ''b'']), E_WriteLine ''ab'',
       E_ReadLine [], E_Decode (Pieces_to_string []), E_WriteLine [],
       E_ReadLine ''c'', E_Decode (Pieces_to_string [''c'']), E_WriteLine ''c''])"
  by (simp add: main_def demo_flags_def demo_world_def rest_args_def select_closure_def
      batch_def startup_trace_def piece_string_def decode_to_string_def StrSplit_def)

lemma demo_run_map:
  "main demo_world (demo_flags\<lparr>FLAGS_input_format := ''map''\<rparr>)
       [''spm_decode'', ''ids.bin'', ''missing.bin''] =
     (Inr 0,
      [E_Load ''m.model'', E_SetDecodeExtraOptions [], E_NewWritableFile [],
       E_ifstream ''ids.bin'', E_Decode (Ids_to_string [15, 42]), E_WriteLine ''xx'',
       E_ifstream ''missing.bin'',
       E_cerr ''Error: Unable to open the file: missing.bin'',
       E_Decode (Ids_to_string []), E_WriteLine []])"
  by (simp add: main_def demo_flags_def demo_world_def rest_args_def select_closure_def
      batch_def startup_trace_def map_string_def decode_to_string_def
      readFileToVector_def read_elements_scenario unable_to_open_def)

section \<open>Output lines\<close>

text \<open>
  C7. For the output format string, a call of the closure either ends the run
  on a decode failure, before it writes, or writes exactly one line; in a run that
  returns 0 the lines written are as many as the lines read, which are all the lines of
  the input files (formats piece and id), or as many as the input files (format map).
  For the output format proto no call of a closure writes, and a run writes nothing.
\<close>

theorem output_lines:
  "(FLAGS_output_format fl = ''string'' \<longrightarrow>
      (\<forall>p. select_closure w sp fl = Inr (Process p) \<longrightarrow>
         (\<forall>pieces tr. fst (p pieces tr) = Inl Decode_failed
            \<or> (\<exists>l. written (snd (p pieces tr)) = written tr @ [l])))
    \<and> (\<forall>p. select_closure w sp fl = Inr (Process_int p) \<longrightarrow>
         (\<forall>ids tr. fst (p ids tr) = Inl Decode_failed
            \<or> (\<exists>l. written (snd (p ids tr)) = written tr @ [l])))
    \<and> (FLAGS_input_format fl \<noteq> ''map'' \<and> fst (main w fl argv) = Inr 0 \<longrightarrow>
         lines_read (snd (main w fl argv)) = all_lines w (rest_args fl argv)
         \<and> length (written (snd (main w fl argv)))
             = length (lines_read (snd (main w fl argv))))
    \<and> (FLAGS_input_format fl = ''map'' \<and> fst (main w fl argv) = Inr 0 \<longrightarrow>
         length (written (snd (main w fl argv))) = length (rest_args fl argv)))
   \<and> (FLAGS_output_format fl = ''proto'' \<longrightarrow>
      (\<forall>p. select_closure w sp fl = Inr (Process p) \<longrightarrow>
         (\<forall>pieces tr. written (snd (p pieces tr)) = written tr))
    \<and> (\<forall>p. select_closure w sp fl = Inr (Process_int p) \<longrightarrow>
         (\<forall>ids tr. written (snd (p ids tr)) = written tr))
    \<and> written (snd (main w fl argv)) = [])"
proof (intro conjI impI allI)
  fix p pieces tr
  assume "FLAGS_output_format fl = ''string''" and "select_closure w sp fl = Inr (Process p)"
  then have "writes_line p" by (simp add: select_closure_Process(2))
  then show "fst (p pieces tr) = Inl Decode_failed
      \<or> (\<exists>l. written (snd (p pieces tr)) = written tr @ [l])"
    by (rule writes_line_invocation)
next
  fix p ids tr
  assume "FLAGS_output_format fl = ''string''" and "select_closure w sp fl = Inr (Process_int p)"
  then have "writes_line p" by (simp add: select_closure_Process_int(2))
  then show "fst (p ids tr) = Inl Decode_failed
      \<or> (\<exists>l. written (snd (p ids tr)) = written tr @ [l])"
    by (rule writes_line_invocation)
next
  assume "FLAGS_output_format fl = ''string''"
    and "FLAGS_input_format fl \<noteq> ''map'' \<and> fst (main w fl argv) = Inr 0"
  then show "lines_read (snd (main w fl argv)) = all_lines w (rest_args fl argv)"
    and "length (written (snd (main w fl argv))) = length (lines_read (snd (main w fl argv)))"
    by (simp_all add: main_text_string)
next
  assume "FLAGS_output_format fl = ''string''"
    and "FLAGS_input_format fl = ''map'' \<and> fst (main w fl argv) = Inr 0"
  then show "length (written (snd (main w fl argv))) = length (rest_args fl argv)"
    by (simp add: main_map_string)
next
  fix p pieces tr
  assume "FLAGS_output_format fl = ''proto''" and "select_closure w sp fl = Inr (Process p)"
  then have "writes_nothing p" by (simp add: select_closure_Process(3))
  then show "written (snd (p pieces tr)) = written tr"
    by (rule writes_nothing_invocation)
next
  fix p ids tr
  assume "FLAGS_output_format fl = ''proto''" and "select_closure w sp fl = Inr (Process_int p)"
  then have "writes_nothing p" by (simp add: select_closure_Process_int(3))
  then show "written (snd (p ids tr)) = written tr"
    by (rule writes_nothing_invocation)
next
  assume "FLAGS_output_format fl = ''proto''"
  then show "written (snd (main w fl argv)) = []"
    by (rule main_proto_silent)
qed

theorem output_lines_witness:
  "fst (main demo_world demo_flags [''spm_decode'', ''in.txt'']) = Inr 0
   \<and> lines_read (snd (main demo_world demo_flags [''spm_decode'', ''in.txt'']))
       = [''a b'', [], ''c'']
   \<and> length (written (snd (main demo_world demo_flags [''spm_decode'', ''in.txt''])))
       = length (lines_read (snd (main demo_world demo_flags [''spm_decode'', ''in.txt''])))
   \<and> written (snd (main demo_world (demo_flags\<lparr>FLAGS_output_format := ''proto''\<rparr>)
                 [''spm_decode'', ''in.txt''])) = []
   \<and> length (written (snd (main demo_world (demo_flags\<lparr>FLAGS_input_format := ''map''\<rparr>)
                 [''spm_decode'', ''ids.bin'', ''missing.bin'']))) = 2"
proof -
  have ok: "fst (main demo_world demo_flags [''spm_decode'', ''in.txt'']) = Inr 0"
    by (simp add: demo_run_piece)
  have ok_map: "fst (main demo_world (demo_flags\<lparr>FLAGS_input_format := ''map''\<rparr>)
      [''spm_decode'', ''ids.bin'', ''missing.bin'']) = Inr 0"
    by (simp add: demo_run_map)
  have fmt: "FLAGS_output_format demo_flags = ''string''" "FLAGS_input_format demo_flags \<noteq> ''map''"
    "FLAGS_output_format (demo_flags\<lparr>FLAGS_output_format := ''proto''\<rparr>) = ''proto''"
    "FLAGS_output_format (demo_flags\<lparr>FLAGS_input_format := ''map''\<rparr>) = ''string''"
    "FLAGS_input_format (demo_flags\<lparr>FLAGS_input_format := ''map''\<rparr>) = ''map''"
    by (simp_all add: demo_flags_def)
  have files_map: "rest_args (demo_flags\<lparr>FLAGS_input_format := ''map''\<rparr>)
      [''spm_decode'', ''ids.bin'', ''missing.bin''] = [''ids.bin'', ''missing.bin'']"
    by (simp add: rest_args_def demo_flags_def)
  have files: "all_lines demo_world (rest_args demo_flags [''spm_decode'', ''in.txt''])
      = [''a b'', [], ''c'']"
    by (simp add: all_lines_def rest_args_def demo_flags_def demo_world_def)
  show ?thesis
    using output_lines [of demo_flags demo_world "()" "[''spm_decode'', ''in.txt'']"]
      output_lines [of "demo_flags\<lparr>FLAGS_output_format := ''proto''\<rparr>" demo_world "()"
        "[''spm_decode'', ''in.txt'']"]
      output_lines [of "demo_flags\<lparr>FLAGS_input_format := ''map''\<rparr>" demo_world "()"
        "[''spm_decode'', ''ids.bin'', ''missing.bin'']"]
      ok ok_map fmt files files_map
    by simp
qed

text \<open>
  With the input format id and a second line that holds an id unknown to the model, the
  run ends in the closure of that line: two lines read, one line written. With the input
  format map and a file that holds such an id, the run ends in the closure of the file:
  one input file, no line written.
\<close>

theorem output_lines_counterexample:
  "main demo_world (demo_flags\<lparr>FLAGS_input_format := ''id''\<rparr>) [''spm_decode'', ''ids.txt'']
     = (Inl Decode_failed,
        [E_Load ''m.model'', E_SetDecodeExtraOptions [], E_NewWritableFile [],
         E_NewReadableFile ''ids.txt'',
         E_ReadLine ''15 42 7'', E_Decode (Ids_to_string [15, 42, 7]), E_WriteLine ''xxx'',
         E_ReadLine ''5 999'', E_Decode (Ids_to_string [5, 999])])
   \<and> length (lines_read (snd (main demo_world (demo_flags\<lparr>FLAGS_input_format := ''id''\<rparr>)
                 [''spm_decode'', ''ids.txt'']))) = 2
   \<and> length (written (snd (main demo_world (demo_flags\<lparr>FLAGS_input_format := ''id''\<rparr>)
                 [''spm_decode'', ''ids.txt'']))) = 1
   \<and> main demo_world (demo_flags\<lparr>FLAGS_input_format := ''map''\<rparr>) [''spm_decode'', ''bad.bin'']
     = (Inl Decode_failed,
        [E_Load ''m.model'', E_SetDecodeExtraOptions [], E_NewWritableFile [],
         E_ifstream ''bad.bin'', E_Decode (Ids_to_string [999])])
   \<and> written (snd (main demo_world (demo_flags\<lparr>FLAGS_input_format := ''map''\<rparr>)
                 [''spm_decode'', ''bad.bin''])) = []"
proof -
  have text_run:
    "main demo_world (demo_flags\<lparr>FLAGS_input_format := ''id''\<rparr>) [''spm_decode'', ''ids.txt'']
     = (Inl Decode_failed,
        [E_Load ''m.model'', E_SetDecodeExtraOptions [], E_NewWritableFile [],
         E_NewReadableFile ''ids.txt'',
         E_ReadLine ''15 42 7'', E_Decode (Ids_to_string [15, 42, 7]), E_WriteLine ''xxx'',
         E_ReadLine ''5 999'', E_Decode (Ids_to_string [5, 999])])"
    by (simp add: main_def demo_flags_def demo_world_def rest_args_def select_closure_def
        batch_def startup_trace_def id_string_def decode_to_string_def StrSplit_def
        ToIds_def atoi_def isspace_def isdigit_def)
  have elements: "read_elements [0xE7, 0x03] = [999]"
    by (simp add: read_elements_def num16_at_def uint_num16)
  have map_run:
    "main demo_world (demo_flags\<lparr>FLAGS_input_format := ''map''\<rparr>) [''spm_decode'', ''bad.bin'']
     = (Inl Decode_failed,
        [E_Load ''m.model'', E_SetDecodeExtraOptions [], E_NewWritableFile [],
         E_ifstream ''bad.bin'', E_Decode (Ids_to_string [999])])"
    by (simp add: main_def demo_flags_def demo_world_def rest_args_def select_closure_def
        batch_def startup_trace_def map_string_def decode_to_string_def
        readFileToVector_def elements)
  show ?thesis
    by (simp add: text_run map_run)
qed

section \<open>Empty lines\<close>

lemma ToIds_Nil: "ToIds w [] = []"
  by (simp add: ToIds_def)

lemma StrSplit_Nil: "StrSplit [] = []"
  by (simp add: StrSplit_def)

lemma read_lines_one_empty:
  "read_lines p [[]] tr =
     (case p [] (tr @ [E_ReadLine []]) of
        (Inl d, tr') \<Rightarrow> (Inl d, tr')
      | (Inr _, tr') \<Rightarrow> (Inr (), tr'))"
  by (simp add: StrSplit_Nil split: prod.splits sum.splits)

lemma read_lines_empty_piece_string:
  "read_lines (piece_string w sp) [[]] tr =
     (case Decode_pieces w sp [] of
        None \<Rightarrow> (Inl Decode_failed, tr @ [E_ReadLine [], E_Decode (Pieces_to_string [])])
      | Some detok \<Rightarrow>
          (Inr (), tr @ [E_ReadLine [], E_Decode (Pieces_to_string []), E_WriteLine detok]))"
  by (simp only: read_lines_one_empty)
     (simp add: piece_string_def decode_to_string_def split: option.splits)

lemma read_lines_empty_id_string:
  "read_lines (id_string w sp) [[]] tr =
     (case Decode_ids w sp [] of
        None \<Rightarrow> (Inl Decode_failed, tr @ [E_ReadLine [], E_Decode (Ids_to_string [])])
      | Some detok \<Rightarrow>
          (Inr (), tr @ [E_ReadLine [], E_Decode (Ids_to_string []), E_WriteLine detok]))"
  by (simp only: read_lines_one_empty)
     (simp add: id_string_def ToIds_Nil decode_to_string_def split: option.splits)

lemma read_lines_empty_piece_proto:
  "read_lines (piece_proto w sp) [[]] tr =
     (case Decode_pieces_spt w sp [] of
        None \<Rightarrow> (Inl Decode_failed, tr @ [E_ReadLine [], E_Decode (Pieces_to_spt [])])
      | Some spt \<Rightarrow> (Inr (), tr @ [E_ReadLine [], E_Decode (Pieces_to_spt [])]))"
  by (simp only: read_lines_one_empty)
     (simp add: piece_proto_def decode_to_spt_def split: option.splits)

lemma read_lines_empty_id_proto:
  "read_lines (id_proto w sp) [[]] tr =
     (case Decode_ids_spt w sp [] of
        None \<Rightarrow> (Inl Decode_failed, tr @ [E_ReadLine [], E_Decode (Ids_to_spt [])])
      | Some spt \<Rightarrow> (Inr (), tr @ [E_ReadLine [], E_Decode (Ids_to_spt [])]))"
  by (simp only: read_lines_one_empty)
     (simp add: id_proto_def ToIds_Nil decode_to_spt_def split: option.splits)

lemma read_lines_Cons_ok:
  assumes "fst (read_lines p [line] tr) = Inr ()"
  shows "read_lines p (line # rest) tr = read_lines p rest (snd (read_lines p [line] tr))"
  using assms
  by (cases "p (StrSplit line) (tr @ [E_ReadLine line])")
     (auto split: sum.splits)

lemma main_one_file:
  assumes "select_closure w sp fl = Inr (Process p)"
    and "FLAGS_model fl \<noteq> []" and "Load w (FLAGS_model fl) = Some sp0"
    and "SetDecodeExtraOptions w sp0 (FLAGS_extra_options fl) = Some sp"
    and "NewWritableFile w (FLAGS_output fl)"
    and "rest_args fl argv = [filename]" and "NewReadableFile w filename = Some ls"
    and "fst (read_lines p ls (startup_trace fl @ [E_NewReadableFile filename])) = Inr ()"
  shows "main w fl argv =
     (Inr 0, snd (read_lines p ls (startup_trace fl @ [E_NewReadableFile filename])))"
proof -
  have fmt: "FLAGS_input_format fl \<noteq> ''map''"
    using select_closure_Process(1) [OF assms(1)] .
  obtain r tr' where rl: "read_lines p ls (startup_trace fl @ [E_NewReadableFile filename]) = (r, tr')"
    by (cases "read_lines p ls (startup_trace fl @ [E_NewReadableFile filename])")
  with assms(8) have r: "r = Inr ()" by simp
  have "batch w fl (Process p) [filename] (startup_trace fl) = (Inr (), tr')"
    using fmt assms(7) rl r by (simp add: batch_def)
  then show ?thesis
    using rl by (simp add: main_started [OF assms(2-5)] assms(1,6))
qed

text \<open>
  C1. For the input formats piece and id (those for which the dispatch assigns
  \<open>process\<close>), the loop over the lines calls the closure on an empty line with no token:
  the event of the line is followed by one decode call on the empty sequence of pieces,
  respectively of ids, and the call of the closure fails exactly when that decode does.
  When the model decodes the empty sequence, the line does not fail, one line is written
  for it for the output format string, the loop goes on to the next line, and a run
  whose only input holds one empty line returns 0 with these events.
\<close>

theorem empty_line:
  assumes "select_closure w sp fl = Inr (Process p)"
  shows "(FLAGS_input_format fl = ''piece'' \<and> FLAGS_output_format fl = ''string'' \<longrightarrow>
       read_lines p [[]] tr =
         (case Decode_pieces w sp [] of
            None \<Rightarrow> (Inl Decode_failed, tr @ [E_ReadLine [], E_Decode (Pieces_to_string [])])
          | Some detok \<Rightarrow>
              (Inr (),
               tr @ [E_ReadLine [], E_Decode (Pieces_to_string []), E_WriteLine detok])))
    \<and> (FLAGS_input_format fl = ''id'' \<and> FLAGS_output_format fl = ''string'' \<longrightarrow>
       read_lines p [[]] tr =
         (case Decode_ids w sp [] of
            None \<Rightarrow> (Inl Decode_failed, tr @ [E_ReadLine [], E_Decode (Ids_to_string [])])
          | Some detok \<Rightarrow>
              (Inr (), tr @ [E_ReadLine [], E_Decode (Ids_to_string []), E_WriteLine detok])))
    \<and> (FLAGS_input_format fl = ''piece'' \<and> FLAGS_output_format fl = ''proto'' \<longrightarrow>
       read_lines p [[]] tr =
         (case Decode_pieces_spt w sp [] of
            None \<Rightarrow> (Inl Decode_failed, tr @ [E_ReadLine [], E_Decode (Pieces_to_spt [])])
          | Some spt \<Rightarrow> (Inr (), tr @ [E_ReadLine [], E_Decode (Pieces_to_spt [])])))
    \<and> (FLAGS_input_format fl = ''id'' \<and> FLAGS_output_format fl = ''proto'' \<longrightarrow>
       read_lines p [[]] tr =
         (case Decode_ids_spt w sp [] of
            None \<Rightarrow> (Inl Decode_failed, tr @ [E_ReadLine [], E_Decode (Ids_to_spt [])])
          | Some spt \<Rightarrow> (Inr (), tr @ [E_ReadLine [], E_Decode (Ids_to_spt [])])))
    \<and> (decodes_empty w sp \<longrightarrow>
         fst (read_lines p [[]] tr) = Inr ()
       \<and> lines_read (snd (read_lines p [[]] tr)) = lines_read tr @ [[]]
       \<and> (\<exists>call \<in> empty_calls.
             decode_calls (snd (read_lines p [[]] tr)) = decode_calls tr @ [call])
       \<and> (FLAGS_output_format fl = ''string'' \<longrightarrow>
             (\<exists>detok. written (snd (read_lines p [[]] tr)) = written tr @ [detok]))
       \<and> read_lines p ([] # rest) tr = read_lines p rest (snd (read_lines p [[]] tr))
       \<and> (FLAGS_model fl \<noteq> [] \<and> Load w (FLAGS_model fl) = Some sp0
            \<and> SetDecodeExtraOptions w sp0 (FLAGS_extra_options fl) = Some sp
            \<and> NewWritableFile w (FLAGS_output fl)
            \<and> rest_args fl argv = [filename] \<and> NewReadableFile w filename = Some [[]] \<longrightarrow>
          main w fl argv =
            (Inr 0, snd (read_lines p [[]] (startup_trace fl @ [E_NewReadableFile filename])))))"
proof -
  note sel = select_closure_cases [OF assms]
  have c1: "read_lines p [[]] tr =
         (case Decode_pieces w sp [] of
            None \<Rightarrow> (Inl Decode_failed, tr @ [E_ReadLine [], E_Decode (Pieces_to_string [])])
          | Some detok \<Rightarrow>
              (Inr (),
               tr @ [E_ReadLine [], E_Decode (Pieces_to_string []), E_WriteLine detok]))"
    if "FLAGS_input_format fl = ''piece''" "FLAGS_output_format fl = ''string''" for tr
    using sel that read_lines_empty_piece_string [of w sp tr]
    by (auto simp del: read_lines.simps)
  have c2: "read_lines p [[]] tr =
         (case Decode_ids w sp [] of
            None \<Rightarrow> (Inl Decode_failed, tr @ [E_ReadLine [], E_Decode (Ids_to_string [])])
          | Some detok \<Rightarrow>
              (Inr (), tr @ [E_ReadLine [], E_Decode (Ids_to_string []), E_WriteLine detok]))"
    if "FLAGS_input_format fl = ''id''" "FLAGS_output_format fl = ''string''" for tr
    using sel that read_lines_empty_id_string [of w sp tr]
    by (auto simp del: read_lines.simps)
  have c3: "read_lines p [[]] tr =
         (case Decode_pieces_spt w sp [] of
            None \<Rightarrow> (Inl Decode_failed, tr @ [E_ReadLine [], E_Decode (Pieces_to_spt [])])
          | Some spt \<Rightarrow> (Inr (), tr @ [E_ReadLine [], E_Decode (Pieces_to_spt [])]))"
    if "FLAGS_input_format fl = ''piece''" "FLAGS_output_format fl = ''proto''" for tr
    using sel that read_lines_empty_piece_proto [of w sp tr]
    by (auto simp del: read_lines.simps)
  have c4: "read_lines p [[]] tr =
         (case Decode_ids_spt w sp [] of
            None \<Rightarrow> (Inl Decode_failed, tr @ [E_ReadLine [], E_Decode (Ids_to_spt [])])
          | Some spt \<Rightarrow> (Inr (), tr @ [E_ReadLine [], E_Decode (Ids_to_spt [])]))"
    if "FLAGS_input_format fl = ''id''" "FLAGS_output_format fl = ''proto''" for tr
    using sel that read_lines_empty_id_proto [of w sp tr]
    by (auto simp del: read_lines.simps)
  have shape: "\<exists>call \<in> empty_calls.
        (FLAGS_output_format fl = ''string'' \<and>
           (\<exists>detok. read_lines p [[]] tr
              = (Inr (), tr @ [E_ReadLine [], E_Decode call, E_WriteLine detok])))
      \<or> (FLAGS_output_format fl = ''proto'' \<and>
           read_lines p [[]] tr = (Inr (), tr @ [E_ReadLine [], E_Decode call]))"
    if dec: "decodes_empty w sp" for tr
  proof -
    from dec obtain t1 t2 s1 s2 where d: "Decode_pieces w sp [] = Some t1"
      "Decode_ids w sp [] = Some t2" "Decode_pieces_spt w sp [] = Some s1"
      "Decode_ids_spt w sp [] = Some s2"
      by (auto simp add: decodes_empty_def)
    from sel consider
        "FLAGS_input_format fl = ''piece''" "FLAGS_output_format fl = ''string''"
      | "FLAGS_input_format fl = ''id''" "FLAGS_output_format fl = ''string''"
      | "FLAGS_input_format fl = ''piece''" "FLAGS_output_format fl = ''proto''"
      | "FLAGS_input_format fl = ''id''" "FLAGS_output_format fl = ''proto''"
      by auto
    then show ?thesis
    proof cases
      case 1
      from c1 [OF 1] d show ?thesis using 1 by (auto simp add: empty_calls_def)
    next
      case 2
      from c2 [OF 2] d show ?thesis using 2 by (auto simp add: empty_calls_def)
    next
      case 3
      from c3 [OF 3] d show ?thesis using 3 by (auto simp add: empty_calls_def)
    next
      case 4
      from c4 [OF 4] d show ?thesis using 4 by (auto simp add: empty_calls_def)
    qed
  qed
  have ok: "fst (read_lines p [[]] tr) = Inr ()" if "decodes_empty w sp" for tr
    using shape [OF that, of tr] by auto
  have lr: "lines_read (snd (read_lines p [[]] tr)) = lines_read tr @ [[]]"
    if "decodes_empty w sp"
    using shape [OF that, of tr] by (auto simp add: lines_read_append)
  have dc: "\<exists>call \<in> empty_calls.
      decode_calls (snd (read_lines p [[]] tr)) = decode_calls tr @ [call]"
    if "decodes_empty w sp"
    using shape [OF that, of tr] by (auto simp add: decode_calls_append)
  have wr: "\<exists>detok. written (snd (read_lines p [[]] tr)) = written tr @ [detok]"
    if "decodes_empty w sp" "FLAGS_output_format fl = ''string''"
    using shape [OF that(1), of tr] that(2) by (auto simp add: written_append)
  have cont: "read_lines p ([] # rest) tr = read_lines p rest (snd (read_lines p [[]] tr))"
    if "decodes_empty w sp"
    using ok [OF that] by (rule read_lines_Cons_ok)
  have run: "main w fl argv =
      (Inr 0, snd (read_lines p [[]] (startup_trace fl @ [E_NewReadableFile filename])))"
    if "decodes_empty w sp" "FLAGS_model fl \<noteq> []" "Load w (FLAGS_model fl) = Some sp0"
      "SetDecodeExtraOptions w sp0 (FLAGS_extra_options fl) = Some sp"
      "NewWritableFile w (FLAGS_output fl)"
      "rest_args fl argv = [filename]" "NewReadableFile w filename = Some [[]]"
    using main_one_file [OF assms that(2-7) ok [OF that(1)]] .
  from c1 [of tr] c2 [of tr] c3 [of tr] c4 [of tr] ok [of tr] lr dc wr cont run
  show ?thesis by blast
qed

theorem empty_line_witness:
  "main blank_world demo_flags [''spm_decode'', ''blank.txt''] =
     (Inr 0,
      [E_Load ''m.model'', E_SetDecodeExtraOptions [], E_NewWritableFile [],
       E_NewReadableFile ''blank.txt'',
       E_ReadLine [], E_Decode (Pieces_to_string []), E_WriteLine []])
   \<and> main blank_world (demo_flags\<lparr>FLAGS_input_format := ''id''\<rparr>) [''spm_decode'', ''blank.txt''] =
     (Inr 0,
      [E_Load ''m.model'', E_SetDecodeExtraOptions [], E_NewWritableFile [],
       E_NewReadableFile ''blank.txt'',
       E_ReadLine [], E_Decode (Ids_to_string []), E_WriteLine []])"
proof -
  let ?id = "demo_flags\<lparr>FLAGS_input_format := ''id''\<rparr>"
  have sel: "select_closure blank_world () demo_flags = Inr (Process (piece_string blank_world ()))"
    "select_closure blank_world () ?id = Inr (Process (id_string blank_world ()))"
    by (simp_all add: select_closure_def demo_flags_def)
  have dec: "decodes_empty blank_world ()"
    "Decode_pieces blank_world () [] = Some []" "Decode_ids blank_world () [] = Some []"
    by (simp_all add: decodes_empty_def blank_world_def demo_world_def)
  have world: "Load blank_world ''m.model'' = Some ()"
    "SetDecodeExtraOptions blank_world () [] = Some ()" "NewWritableFile blank_world []"
    "NewReadableFile blank_world ''blank.txt'' = Some [[]]"
    by (simp_all add: blank_world_def demo_world_def)
  have fl: "FLAGS_input_format demo_flags = ''piece''" "FLAGS_output_format demo_flags = ''string''"
    "FLAGS_model demo_flags = ''m.model''" "FLAGS_extra_options demo_flags = []"
    "FLAGS_output demo_flags = []"
    "FLAGS_input_format ?id = ''id''" "FLAGS_output_format ?id = ''string''"
    "FLAGS_model ?id = ''m.model''" "FLAGS_extra_options ?id = []" "FLAGS_output ?id = []"
    "rest_args demo_flags [''spm_decode'', ''blank.txt''] = [''blank.txt'']"
    "rest_args ?id [''spm_decode'', ''blank.txt''] = [''blank.txt'']"
    "startup_trace demo_flags
       = [E_Load ''m.model'', E_SetDecodeExtraOptions [], E_NewWritableFile []]"
    "startup_trace ?id
       = [E_Load ''m.model'', E_SetDecodeExtraOptions [], E_NewWritableFile []]"
    by (simp_all add: demo_flags_def rest_args_def startup_trace_def)
  show ?thesis
    using empty_line [OF sel(1),
        of "[E_Load ''m.model'', E_SetDecodeExtraOptions [], E_NewWritableFile [],
             E_NewReadableFile ''blank.txt'']"
           "[]" "()" "[''spm_decode'', ''blank.txt'']" "''blank.txt''"]
      empty_line [OF sel(2),
        of "[E_Load ''m.model'', E_SetDecodeExtraOptions [], E_NewWritableFile [],
             E_NewReadableFile ''blank.txt'']"
           "[]" "()" "[''spm_decode'', ''blank.txt'']" "''blank.txt''"]
      dec world fl
    by (simp del: read_lines.simps)
qed

section \<open>Files that cannot be opened\<close>


lemma Process_int_on_empty:
  assumes "select_closure w sp fl = Inr (Process_int p)"
  shows "p [] tr =
     (if FLAGS_output_format fl = ''string''
      then decode_to_string (Decode_ids w sp []) (Ids_to_string []) tr
      else decode_to_spt (Decode_ids_spt w sp []) (Ids_to_spt []) tr)"
  using select_closure_cases [OF assms]
  by (auto simp add: map_string_def map_proto_def)

lemma text_files_unopened:
  assumes "filename \<in> set files" and "NewReadableFile w filename = None"
  shows "\<exists>d. fst (text_files w p files tr) = Inl d"
  using assms(1)
proof (induction files arbitrary: tr)
  case Nil
  then show ?case by simp
next
  case (Cons f rest)
  show ?case
  proof (cases "NewReadableFile w f")
    case None
    then show ?thesis by simp
  next
    case (Some ls)
    with assms(2) Cons.prems have later: "filename \<in> set rest" by auto
    obtain r tr1 where lines: "read_lines p ls (tr @ [E_NewReadableFile f]) = (r, tr1)"
      by (cases "read_lines p ls (tr @ [E_NewReadableFile f])")
    show ?thesis
    proof (cases r)
      case (Inl d)
      with Some lines show ?thesis by simp
    next
      case (Inr u)
      with Some lines Cons.IH [OF later, of tr1] show ?thesis by simp
    qed
  qed
qed

lemma map_files_all_unopened:
  assumes "\<forall>f \<in> set files. ifstream w f = None"
    and "\<And>tr. \<exists>tr'. p [] tr = (Inr (), tr')"
  shows "fst (map_files w p files tr) = Inr ()"
  using assms(1)
proof (induction files arbitrary: tr)
  case Nil
  then show ?case by simp
next
  case (Cons f rest)
  let ?tr = "tr @ [E_ifstream f, E_cerr (unable_to_open f)]"
  obtain tr' where "p [] ?tr = (Inr (), tr')"
    using assms(2) by blast
  with Cons show ?case
    by (simp add: readFileToVector_unopened)
qed

lemma Process_int_empty_ok:
  assumes "select_closure w sp fl = Inr (Process_int p)"
    and "Decode_ids w sp [] \<noteq> None \<and> Decode_ids_spt w sp [] \<noteq> None"
  shows "\<exists>tr'. p [] tr = (Inr (), tr')"
  using assms(2)
  by (auto simp add: Process_int_on_empty [OF assms(1)]
      decode_to_string_def decode_to_spt_def)

lemma main_text_unopened:
  assumes "FLAGS_input_format fl \<in> {''piece'', ''id''}"
    and "filename \<in> set (rest_args fl argv)" and "NewReadableFile w filename = None"
  shows "\<exists>d. fst (main w fl argv) = Inl d"
proof -
  consider d k where "main w fl argv = (Inl d, take k (startup_trace fl))"
    | sp c r tr where "select_closure w sp fl = Inr c"
      "batch w fl c (rest_args fl argv) (startup_trace fl) = (r, tr)"
      "main w fl argv = (case r of Inl d \<Rightarrow> Inl d | Inr _ \<Rightarrow> Inr 0, tr)"
    using main_cases [of w fl argv] by fastforce
  then show ?thesis
  proof cases
    case 1
    then show ?thesis by simp
  next
    case 2
    from select_closure_cases [OF 2(1)] assms(1) obtain p where c: "c = Process p"
      by auto
    from assms(1) have "FLAGS_input_format fl \<noteq> ''map''" by auto
    with 2(2) c have "text_files w p (rest_args fl argv) (startup_trace fl) = (r, tr)"
      by (simp add: batch_def)
    with text_files_unopened [OF assms(2,3), of p "startup_trace fl"]
    obtain d where "r = Inl d" by auto
    with 2(3) show ?thesis by simp
  qed
qed

lemma main_map_unopened:
  assumes "FLAGS_input_format fl = ''map''"
    and "FLAGS_output_format fl \<in> {''string'', ''proto''}"
    and "FLAGS_model fl \<noteq> []" and "Load w (FLAGS_model fl) = Some sp0"
    and "SetDecodeExtraOptions w sp0 (FLAGS_extra_options fl) = Some sp"
    and "NewWritableFile w (FLAGS_output fl)"
    and "Decode_ids w sp [] \<noteq> None \<and> Decode_ids_spt w sp [] \<noteq> None"
    and "\<forall>f \<in> set (rest_args fl argv). ifstream w f = None"
  shows "fst (main w fl argv) = Inr 0"
proof -
  from assms(1,2) obtain p where sel: "select_closure w sp fl = Inr (Process_int p)"
    by (auto simp add: select_closure_def)
  have "fst (map_files w p (rest_args fl argv) (startup_trace fl)) = Inr ()"
    using assms(8) Process_int_empty_ok [OF sel assms(7)] by (rule map_files_all_unopened)
  then obtain tr where "batch w fl (Process_int p) (rest_args fl argv) (startup_trace fl) = (Inr (), tr)"
    using assms(1)
    by (cases "map_files w p (rest_args fl argv) (startup_trace fl)") (simp add: batch_def)
  then show ?thesis
    by (simp add: main_started [OF assms(3-6)] sel)
qed

text \<open>
  C2. For the input formats piece and id an input file that cannot be opened ends the
  loop over the files, and the run, fatally. For the input format map the reader of a
  file that cannot be opened sends one message to the error channel and returns the
  empty sequence; a run in which no binary file opens still returns 0 when the model
  decodes the empty id sequence.
\<close>

theorem open_failure_asymmetry:
  "(NewReadableFile w filename = None \<longrightarrow>
      text_files w process (filename # rest) tr
        = (Inl (Input_open_failed filename), tr @ [E_NewReadableFile filename]))
   \<and> (FLAGS_input_format fl \<in> {''piece'', ''id''} \<and> filename \<in> set (rest_args fl argv)
        \<and> NewReadableFile w filename = None \<longrightarrow>
      (\<exists>d. fst (main w fl argv) = Inl d))
   \<and> (ifstream w filename = None \<longrightarrow>
      readFileToVector w filename tr
        = ([], tr @ [E_ifstream filename, E_cerr (unable_to_open filename)]))
   \<and> (FLAGS_input_format fl = ''map'' \<and> FLAGS_output_format fl \<in> {''string'', ''proto''}
        \<and> FLAGS_model fl \<noteq> [] \<and> Load w (FLAGS_model fl) = Some sp0
        \<and> SetDecodeExtraOptions w sp0 (FLAGS_extra_options fl) = Some sp
        \<and> NewWritableFile w (FLAGS_output fl)
        \<and> Decode_ids w sp [] \<noteq> None \<and> Decode_ids_spt w sp [] \<noteq> None
        \<and> (\<forall>f \<in> set (rest_args fl argv). ifstream w f = None) \<longrightarrow>
      fst (main w fl argv) = Inr 0)"
proof (intro conjI impI)
  assume "NewReadableFile w filename = None"
  then show "text_files w process (filename # rest) tr
      = (Inl (Input_open_failed filename), tr @ [E_NewReadableFile filename])"
    by simp
next
  assume "FLAGS_input_format fl \<in> {''piece'', ''id''} \<and> filename \<in> set (rest_args fl argv)
      \<and> NewReadableFile w filename = None"
  then show "\<exists>d. fst (main w fl argv) = Inl d"
    using main_text_unopened [of fl filename argv w] by blast
next
  assume "ifstream w filename = None"
  then show "readFileToVector w filename tr
      = ([], tr @ [E_ifstream filename, E_cerr (unable_to_open filename)])"
    by (rule readFileToVector_unopened)
next
  assume "FLAGS_input_format fl = ''map'' \<and> FLAGS_output_format fl \<in> {''string'', ''proto''}
      \<and> FLAGS_model fl \<noteq> [] \<and> Load w (FLAGS_model fl) = Some sp0
      \<and> SetDecodeExtraOptions w sp0 (FLAGS_extra_options fl) = Some sp
      \<and> NewWritableFile w (FLAGS_output fl)
      \<and> Decode_ids w sp [] \<noteq> None \<and> Decode_ids_spt w sp [] \<noteq> None
      \<and> (\<forall>f \<in> set (rest_args fl argv). ifstream w f = None)"
  then show "fst (main w fl argv) = Inr 0"
    using main_map_unopened [of fl w sp0 sp argv] by blast
qed

theorem open_failure_asymmetry_witness:
  "fst (main demo_world demo_flags [''spm_decode'', ''in.txt'', ''missing.txt''])
     = Inl (Input_open_failed ''missing.txt'')
   \<and> fst (main demo_world (demo_flags\<lparr>FLAGS_input_format := ''map''\<rparr>)
          [''spm_decode'', ''missing.bin'']) = Inr 0
   \<and> readFileToVector demo_world ''missing.bin'' []
       = ([], [E_ifstream ''missing.bin'', E_cerr ''Error: Unable to open the file: missing.bin''])"
proof -
  have piece_run: "fst (main demo_world demo_flags [''spm_decode'', ''in.txt'', ''missing.txt''])
      = Inl (Input_open_failed ''missing.txt'')"
    by (simp add: main_def demo_flags_def demo_world_def rest_args_def select_closure_def
        batch_def startup_trace_def piece_string_def decode_to_string_def StrSplit_def)
  have hyps: "NewReadableFile demo_world ''missing.txt'' = None"
    "ifstream demo_world ''missing.bin'' = None"
    "Load demo_world ''m.model'' = Some ()"
    "SetDecodeExtraOptions demo_world () [] = Some ()"
    "NewWritableFile demo_world []"
    "Decode_ids demo_world () [] \<noteq> None" "Decode_ids_spt demo_world () [] \<noteq> None"
    by (simp_all add: demo_world_def)
  have args: "rest_args (demo_flags\<lparr>FLAGS_input_format := ''map''\<rparr>)
      [''spm_decode'', ''missing.bin''] = [''missing.bin'']"
    "rest_args demo_flags [''spm_decode'', ''in.txt'', ''missing.txt'']
      = [''in.txt'', ''missing.txt'']"
    by (simp_all add: rest_args_def demo_flags_def)
  have fmt: "FLAGS_input_format demo_flags = ''piece''"
    "FLAGS_input_format (demo_flags\<lparr>FLAGS_input_format := ''map''\<rparr>) = ''map''"
    "FLAGS_output_format (demo_flags\<lparr>FLAGS_input_format := ''map''\<rparr>) = ''string''"
    "FLAGS_model (demo_flags\<lparr>FLAGS_input_format := ''map''\<rparr>) = ''m.model''"
    "FLAGS_extra_options (demo_flags\<lparr>FLAGS_input_format := ''map''\<rparr>) = []"
    "FLAGS_output (demo_flags\<lparr>FLAGS_input_format := ''map''\<rparr>) = []"
    by (simp_all add: demo_flags_def)
  show ?thesis
    using open_failure_asymmetry
        [of demo_world "''missing.bin''" "\<lambda>pieces tr. (Inr (), tr)" "[]" "[]"
            "demo_flags\<lparr>FLAGS_input_format := ''map''\<rparr>" "[''spm_decode'', ''missing.bin'']"
            "()" "()"]
      piece_run hyps args fmt
    by (simp add: unable_to_open_def)
qed



section \<open>The empty path\<close>

lemma map_string_empty:
  assumes "Decode_ids w sp [] = Some detok"
  shows "map_string w sp [] tr = (Inr (), tr @ [E_Decode (Ids_to_string []), E_WriteLine detok])"
  using assms by (simp add: map_string_def decode_to_string_def)

text \<open>
  C8. With no input flag and no positional argument the list of input sources is the
  empty path, which line 82 reads as standard input and which \<open>NewReadableFile\<close> opens
  as such for the formats piece and id. For the format map the empty path goes to
  \<^verbatim>\<open>readFileToVector\<close>: as \<^verbatim>\<open>std::ifstream\<close> cannot open it, the run reports the open
  failure, decodes the empty id sequence and returns 0; it opens no readable file and
  reads no line, whatever standard input holds.
\<close>

theorem empty_path_for_map:
  assumes "FLAGS_input fl = []" and "tl argv = []"
    and "FLAGS_input_format fl = ''map''" and "FLAGS_output_format fl = ''string''"
    and "FLAGS_model fl \<noteq> []" and "Load w (FLAGS_model fl) = Some sp0"
    and "SetDecodeExtraOptions w sp0 (FLAGS_extra_options fl) = Some sp"
    and "NewWritableFile w (FLAGS_output fl)"
    and "ifstream w [] = None" and "Decode_ids w sp [] = Some detok"
  shows "rest_args fl argv = [[]]
    \<and> main w fl argv =
        (Inr 0,
         startup_trace fl @
           [E_ifstream [], E_cerr (unable_to_open []), E_Decode (Ids_to_string []),
            E_WriteLine detok])
    \<and> lines_read (snd (main w fl argv)) = []
    \<and> filter is_io (snd (main w fl argv))
        = [E_Load (FLAGS_model fl), E_NewWritableFile (FLAGS_output fl), E_ifstream []]"
proof -
  have files: "rest_args fl argv = [[]]"
    using assms(1,2) by (simp add: rest_args_sources)
  have sel: "select_closure w sp fl = Inr (Process_int (map_string w sp))"
    using assms(3,4) by (simp add: select_closure_def)
  have "map_files w (map_string w sp) [[]] (startup_trace fl) =
      (Inr (),
       startup_trace fl @
         [E_ifstream [], E_cerr (unable_to_open []), E_Decode (Ids_to_string []),
          E_WriteLine detok])"
    by (simp add: readFileToVector_unopened [OF assms(9)] map_string_empty [OF assms(10)])
  then have run: "main w fl argv =
        (Inr 0,
         startup_trace fl @
           [E_ifstream [], E_cerr (unable_to_open []), E_Decode (Ids_to_string []),
            E_WriteLine detok])"
    by (simp add: main_started [OF assms(5-8)] sel files batch_def assms(3))
  show ?thesis
    by (simp add: files run lines_read_append startup_trace_def)
qed

theorem empty_path_for_map_witness:
  "main stdin_world (demo_flags\<lparr>FLAGS_input_format := ''map''\<rparr>) [''spm_decode''] =
     (Inr 0,
      [E_Load ''m.model'', E_SetDecodeExtraOptions [], E_NewWritableFile [],
       E_ifstream [], E_cerr ''Error: Unable to open the file: '',
       E_Decode (Ids_to_string []), E_WriteLine []])
   \<and> main stdin_world demo_flags [''spm_decode''] =
     (Inr 0,
      [E_Load ''m.model'', E_SetDecodeExtraOptions [], E_NewWritableFile [],
       E_NewReadableFile [],
       E_ReadLine ''a b'', E_Decode (Pieces_to_string [''a'', ''b'']), E_WriteLine ''ab''])"
proof -
  let ?map = "demo_flags\<lparr>FLAGS_input_format := ''map''\<rparr>"
  have fl: "FLAGS_input ?map = []" "tl [''spm_decode''] = []"
    "FLAGS_input_format ?map = ''map''" "FLAGS_output_format ?map = ''string''"
    "FLAGS_model ?map \<noteq> []" "FLAGS_model ?map = ''m.model''"
    "FLAGS_extra_options ?map = []" "FLAGS_output ?map = []"
    by (simp_all add: demo_flags_def)
  have world: "Load stdin_world ''m.model'' = Some ()"
    "SetDecodeExtraOptions stdin_world () [] = Some ()"
    "NewWritableFile stdin_world []"
    "ifstream stdin_world [] = None" "Decode_ids stdin_world () [] = Some []"
    by (simp_all add: stdin_world_def demo_world_def)
  have text_run: "main stdin_world demo_flags [''spm_decode''] =
     (Inr 0,
      [E_Load ''m.model'', E_SetDecodeExtraOptions [], E_NewWritableFile [],
       E_NewReadableFile [],
       E_ReadLine ''a b'', E_Decode (Pieces_to_string [''a'', ''b'']), E_WriteLine ''ab''])"
    by (simp add: main_def demo_flags_def stdin_world_def demo_world_def rest_args_def
        select_closure_def batch_def startup_trace_def piece_string_def
        decode_to_string_def StrSplit_def)
  show ?thesis
    using empty_path_for_map [of ?map "[''spm_decode'']" stdin_world "()" "()" "[]"]
      fl world text_run
    by (simp add: startup_trace_def unable_to_open_def)
qed

section \<open>The conversion of tokens to ids\<close>

lemma digits_no_digit: "(case cs of [] \<Rightarrow> False | d # _ \<Rightarrow> isdigit d) = False \<Longrightarrow> digits 0 cs = 0"
  by (cases cs) simp_all

lemma atoi_after_space:
  assumes "dropWhile isspace s = s1"
  shows "atoi out_of_range s =
     (let n = (case s1 of
                 [] \<Rightarrow> 0
               | c # cs \<Rightarrow>
                   if c = CHR ''-'' then - int (digits 0 cs)
                   else if c = CHR ''+'' then int (digits 0 cs)
                   else int (digits 0 s1))
      in if - (2 ^ 31) \<le> n \<and> n < 2 ^ 31 then n else out_of_range n)"
  unfolding atoi_def assms Let_def ..

lemma atoi_no_number:
  assumes "\<not> begins_with_number s"
  shows "atoi out_of_range s = 0"
proof (cases "dropWhile isspace s")
  case Nil
  then show ?thesis by (simp add: atoi_after_space [OF Nil])
next
  case (Cons c cs)
  show ?thesis
  proof (cases "c = CHR ''-'' \<or> c = CHR ''+''")
    case True
    with assms Cons have "digits 0 cs = 0"
      by (simp add: begins_with_number_def digits_no_digit)
    with True show ?thesis by (auto simp add: atoi_after_space [OF Cons])
  next
    case False
    with assms Cons have "\<not> isdigit c"
      by (simp add: begins_with_number_def)
    with False show ?thesis by (simp add: atoi_after_space [OF Cons])
  qed
qed

lemma digits_stop:
  assumes "\<not> isdigit c"
  shows "digits acc (ds @ c # rest) = digits acc ds"
  using assms by (induction ds arbitrary: acc) simp_all

lemma digits_decimal:
  assumes "list_all isdigit ds"
  shows "digits acc ds = acc * 10 ^ length ds + decimal ds"
  using assms
  by (induction ds arbitrary: acc) (simp_all add: digit_value_def algebra_simps)

lemma digits_prefix:
  assumes "list_all isdigit ds" and "rest = [] \<or> \<not> isdigit (hd rest)"
  shows "digits acc (ds @ rest) = acc * 10 ^ length ds + decimal ds"
proof (cases rest)
  case Nil
  with assms(1) show ?thesis by (simp add: digits_decimal)
next
  case (Cons c cs)
  with assms(2) have "\<not> isdigit c" by simp
  then have "digits acc (ds @ c # cs) = digits acc ds"
    by (rule digits_stop)
  with Cons assms(1) show ?thesis by (simp add: digits_decimal)
qed

lemma dropWhile_spaces:
  assumes "list_all isspace ws" and "\<not> isspace c"
  shows "dropWhile isspace (ws @ c # cs) = c # cs"
  using assms by (induction ws) simp_all

lemma digit_not_space: "isdigit c \<Longrightarrow> \<not> isspace c"
  by (auto simp add: isdigit_def isspace_def)

lemma digit_not_sign: "isdigit c \<Longrightarrow> c \<noteq> CHR ''-'' \<and> c \<noteq> CHR ''+''"
  by (auto simp add: isdigit_def)

lemma sign_not_space: "\<not> isspace CHR ''-''" "\<not> isspace CHR ''+''"
  by (simp_all add: isspace_def)

lemma atoi_in_range:
  assumes "dropWhile isspace s = s1"
    and "n = (case s1 of
                [] \<Rightarrow> 0
              | c # cs \<Rightarrow>
                  if c = CHR ''-'' then - int (digits 0 cs)
                  else if c = CHR ''+'' then int (digits 0 cs)
                  else int (digits 0 s1))"
    and "- (2 ^ 31) \<le> n" and "n < 2 ^ 31"
  shows "atoi out_of_range s = n"
  unfolding atoi_after_space [OF assms(1)] Let_def assms(2) [symmetric]
  using assms(3,4) by simp

lemma atoi_number:
  assumes ws: "list_all isspace ws" and ds: "ds \<noteq> []" "list_all isdigit ds"
    and rest: "rest = [] \<or> \<not> isdigit (hd rest)"
  shows "decimal ds < 2 ^ 31 \<Longrightarrow> atoi out_of_range (ws @ ds @ rest) = int (decimal ds)"
    and "decimal ds < 2 ^ 31 \<Longrightarrow> atoi out_of_range (ws @ CHR ''+'' # ds @ rest) = int (decimal ds)"
    and "decimal ds \<le> 2 ^ 31 \<Longrightarrow> atoi out_of_range (ws @ CHR ''-'' # ds @ rest) = - int (decimal ds)"
proof -
  from ds obtain d ds' where d: "ds = d # ds'" "isdigit d"
    by (cases ds) simp_all
  have val: "digits 0 (ds @ rest) = decimal ds"
    using digits_prefix [OF ds(2) rest, of 0] by simp
  have plain: "dropWhile isspace (ws @ ds @ rest) = ds @ rest"
    using dropWhile_spaces [OF ws digit_not_space [OF d(2)], of "ds' @ rest"] d(1) by simp
  have plus: "dropWhile isspace (ws @ CHR ''+'' # ds @ rest) = CHR ''+'' # ds @ rest"
    and minus: "dropWhile isspace (ws @ CHR ''-'' # ds @ rest) = CHR ''-'' # ds @ rest"
    using ws by (simp_all add: dropWhile_spaces sign_not_space)
  have plain_n: "int (decimal ds) =
      (case ds @ rest of
         [] \<Rightarrow> 0
       | c # cs \<Rightarrow>
           if c = CHR ''-'' then - int (digits 0 cs)
           else if c = CHR ''+'' then int (digits 0 cs)
           else int (digits 0 (ds @ rest)))"
    unfolding val using digit_not_sign [OF d(2)] by (simp add: d(1))
  have plus_n: "int (decimal ds) =
      (case CHR ''+'' # ds @ rest of
         [] \<Rightarrow> 0
       | c # cs \<Rightarrow>
           if c = CHR ''-'' then - int (digits 0 cs)
           else if c = CHR ''+'' then int (digits 0 cs)
           else int (digits 0 (CHR ''+'' # ds @ rest)))"
    by (simp add: val del: digits.simps)
  have minus_n: "- int (decimal ds) =
      (case CHR ''-'' # ds @ rest of
         [] \<Rightarrow> 0
       | c # cs \<Rightarrow>
           if c = CHR ''-'' then - int (digits 0 cs)
           else if c = CHR ''+'' then int (digits 0 cs)
           else int (digits 0 (CHR ''-'' # ds @ rest)))"
    by (simp add: val del: digits.simps)
  show "atoi out_of_range (ws @ ds @ rest) = int (decimal ds)" if "decimal ds < 2 ^ 31"
  proof -
    have "int (decimal ds) < 2 ^ 31" using that by (simp flip: of_nat_less_iff)
    then show ?thesis
      by (intro atoi_in_range [OF plain plain_n]) simp_all
  qed
  show "atoi out_of_range (ws @ CHR ''+'' # ds @ rest) = int (decimal ds)" if "decimal ds < 2 ^ 31"
  proof -
    have "int (decimal ds) < 2 ^ 31" using that by (simp flip: of_nat_less_iff)
    then show ?thesis
      by (intro atoi_in_range [OF plus plus_n]) simp_all
  qed
  show "atoi out_of_range (ws @ CHR ''-'' # ds @ rest) = - int (decimal ds)" if "decimal ds \<le> 2 ^ 31"
  proof -
    have "int (decimal ds) \<le> 2 ^ 31" using that by (simp flip: of_nat_le_iff)
    then show ?thesis
      by (intro atoi_in_range [OF minus minus_n]) simp_all
  qed
qed

lemma list_all_takeWhile: "list_all P (takeWhile P xs)"
  by (induction xs) simp_all

lemma digits_split:
  assumes "cs = d # cs'" and "isdigit d"
  shows "\<exists>ds rest. cs = ds @ rest \<and> ds \<noteq> [] \<and> list_all isdigit ds
            \<and> (rest = [] \<or> \<not> isdigit (hd rest))"
proof (intro exI conjI)
  show "cs = takeWhile isdigit cs @ dropWhile isdigit cs" by simp
  show "takeWhile isdigit cs \<noteq> []" using assms by simp
  show "list_all isdigit (takeWhile isdigit cs)" by (rule list_all_takeWhile)
  show "dropWhile isdigit cs = [] \<or> \<not> isdigit (hd (dropWhile isdigit cs))"
    using hd_dropWhile [of isdigit cs] by blast
qed

lemma begins_with_number_split:
  assumes "begins_with_number s"
  shows "\<exists>ws sgn ds rest. s = ws @ sgn @ ds @ rest \<and> list_all isspace ws
           \<and> (sgn = [] \<or> sgn = ''+'' \<or> sgn = ''-'')
           \<and> ds \<noteq> [] \<and> list_all isdigit ds \<and> (rest = [] \<or> \<not> isdigit (hd rest))"
proof -
  let ?ws = "takeWhile isspace s"
  have s: "s = ?ws @ dropWhile isspace s" by simp
  have ws: "list_all isspace ?ws" by (rule list_all_takeWhile)
  from assms obtain c cs where s1: "dropWhile isspace s = c # cs"
    by (cases "dropWhile isspace s") (simp_all add: begins_with_number_def)
  show ?thesis
  proof (cases "c = CHR ''-'' \<or> c = CHR ''+''")
    case True
    with assms s1 obtain d cs' where "cs = d # cs'" "isdigit d"
      by (cases cs) (auto simp add: begins_with_number_def)
    from digits_split [OF this] obtain ds rest where "cs = ds @ rest" "ds \<noteq> []"
      "list_all isdigit ds" "rest = [] \<or> \<not> isdigit (hd rest)"
      by blast
    moreover from this(1) s s1 have "s = ?ws @ [c] @ ds @ rest" by simp
    ultimately show ?thesis using ws True by blast
  next
    case False
    with assms s1 have "isdigit c" by (simp add: begins_with_number_def)
    from digits_split [OF s1 this] obtain ds rest where "dropWhile isspace s = ds @ rest"
      "ds \<noteq> []" "list_all isdigit ds" "rest = [] \<or> \<not> isdigit (hd rest)"
      by blast
    moreover from this(1) s have "s = ?ws @ [] @ ds @ rest" by simp
    ultimately show ?thesis using ws by blast
  qed
qed

lemma digit_chars:
  "map char_of [48 :: nat, 49, 50, 51, 52, 53, 54, 55, 56, 57] = ''0123456789''"
  by (simp add: char_of_def bit_iff_odd)

lemma isdigit_chars: "isdigit c \<longleftrightarrow> c \<in> set ''0123456789''"
proof
  assume "isdigit c"
  then have "(of_char c :: nat) \<in> {48, 49, 50, 51, 52, 53, 54, 55, 56, 57}"
    unfolding isdigit_def by (simp add: numeral_eq_Suc) arith
  moreover have "c = char_of (of_char c :: nat)" by simp
  ultimately have "c \<in> char_of ` {48 :: nat, 49, 50, 51, 52, 53, 54, 55, 56, 57}"
    by (rule_tac image_eqI)
  then have "c \<in> set (map char_of [48 :: nat, 49, 50, 51, 52, 53, 54, 55, 56, 57])"
    by simp
  then show "c \<in> set ''0123456789''" by (simp only: digit_chars)
next
  assume "c \<in> set ''0123456789''"
  then show "isdigit c" by (auto simp add: isdigit_def)
qed

lemma decimal_all_digits: "decimal ''0123456789'' = 123456789"
  by (simp add: digit_value_def)

text \<open>
  C3. The conversion of the tokens to ids is total: one id for each token, by
  \<^verbatim>\<open>atoi\<close>, with no error. A token that does not begin, after white space and one sign,
  with a decimal digit yields 0. Every other token is white space, at most one sign, a
  run of digits and a rest that does not begin with a digit, and it yields the number
  that the run of digits denotes, with its sign, when that number fits an \<^verbatim>\<open>int\<close>.
  The digits are the ten characters 0 to 9, with the values 0 to 9.
\<close>

theorem ToIds_lenient:
  "length (ToIds w pieces) = length pieces
   \<and> (\<forall>i < length pieces. ToIds w pieces ! i = atoi (atoi_out_of_range w) (pieces ! i))
   \<and> (\<not> begins_with_number s \<longrightarrow> atoi (atoi_out_of_range w) s = 0)
   \<and> (begins_with_number s \<longrightarrow>
        (\<exists>ws sgn ds rest. s = ws @ sgn @ ds @ rest \<and> list_all isspace ws
           \<and> (sgn = [] \<or> sgn = ''+'' \<or> sgn = ''-'')
           \<and> ds \<noteq> [] \<and> list_all isdigit ds \<and> (rest = [] \<or> \<not> isdigit (hd rest))))
   \<and> (list_all isspace ws \<and> ds \<noteq> [] \<and> list_all isdigit ds
        \<and> (rest = [] \<or> \<not> isdigit (hd rest)) \<longrightarrow>
        (decimal ds < 2 ^ 31 \<longrightarrow>
           atoi (atoi_out_of_range w) (ws @ ds @ rest) = int (decimal ds)
           \<and> atoi (atoi_out_of_range w) (ws @ ''+'' @ ds @ rest) = int (decimal ds))
        \<and> (decimal ds \<le> 2 ^ 31 \<longrightarrow>
           atoi (atoi_out_of_range w) (ws @ ''-'' @ ds @ rest) = - int (decimal ds)))
   \<and> (isdigit c \<longleftrightarrow> c \<in> set ''0123456789'')
   \<and> decimal ''0123456789'' = 123456789"
proof -
  have "atoi (atoi_out_of_range w) (ws @ ds @ rest) = int (decimal ds)
      \<and> atoi (atoi_out_of_range w) (ws @ ''+'' @ ds @ rest) = int (decimal ds)"
    if "list_all isspace ws" "ds \<noteq> []" "list_all isdigit ds"
      "rest = [] \<or> \<not> isdigit (hd rest)" "decimal ds < 2 ^ 31"
    using atoi_number(1,2) [OF that] by simp
  moreover have "atoi (atoi_out_of_range w) (ws @ ''-'' @ ds @ rest) = - int (decimal ds)"
    if "list_all isspace ws" "ds \<noteq> []" "list_all isdigit ds"
      "rest = [] \<or> \<not> isdigit (hd rest)" "decimal ds \<le> 2 ^ 31"
    using atoi_number(3) [OF that] by simp
  ultimately show ?thesis
    using begins_with_number_split [of s] isdigit_chars [of c]
    by (simp add: ToIds_def atoi_no_number decimal_all_digits del: decimal.simps)
qed

theorem ToIds_lenient_witness:
  "ToIds demo_world [''x7'', ''12abc'', ''-7'', ''+15'', CHR 0x09 # ''42''] = [0, 12, - 7, 15, 42]"
proof -
  have no: "\<not> begins_with_number ''x7''"
    by (simp add: begins_with_number_def isspace_def isdigit_def)
  have d12: "list_all isdigit ''12''" "decimal ''12'' = 12"
    and d7: "list_all isdigit ''7''" "decimal ''7'' = 7"
    and d15: "list_all isdigit ''15''" "decimal ''15'' = 15"
    and d42: "list_all isdigit ''42''" "decimal ''42'' = 42" "list_all isspace [CHR 0x09]"
    and junk: "\<not> isdigit (hd ''abc'')"
    by (simp_all add: isdigit_def isspace_def digit_value_def)
  show ?thesis
    using ToIds_lenient
        [of demo_world "[''x7'', ''12abc'', ''-7'', ''+15'', CHR 0x09 # ''42'']" "''x7''"
            "[]" "''12''" "''abc''"]
      ToIds_lenient [of demo_world "[]" "''x7''" "[]" "''7''" "[]"]
      ToIds_lenient [of demo_world "[]" "''x7''" "[]" "''15''" "[]"]
      ToIds_lenient [of demo_world "[]" "''x7''" "[CHR 0x09]" "''42''" "[]"]
      no d12 d7 d15 d42 junk
    by (simp add: ToIds_def)
qed

text \<open>The token 12abc is not a decimal integer, and its id is 12, not 0.\<close>

theorem ToIds_lenient_counterexample:
  "\<not> list_all isdigit ''12abc'' \<and> ToIds demo_world [''12abc''] = [12]"
  by (simp add: ToIds_def atoi_def isspace_def isdigit_def)

end
